theory Spec2Isabelle
  imports Complex_Main "HOL-Library.Char_ord" "HOL-Library.Option_ord"
begin

section \<open>Backoff policy (api.ts)\<close>

text \<open>
  JavaScript strings are modelled as \<^typ>\<open>string\<close>; a character stands for one code
  unit in the Latin-1 range. JavaScript numbers that hold integers are modelled as
  \<^typ>\<open>int\<close> (exact where the source computes in doubles below \<open>2 ^ 53\<close>), and
  \<open>NaN\<close> as \<open>None\<close> of \<^typ>\<open>int option\<close>. The attempt number is a natural number,
  as in the loop that calls \<open>calculateBackoff\<close>.
\<close>

definition MAX_RETRIES :: nat where
  "MAX_RETRIES = 5"

definition INITIAL_BACKOFF_MS :: int where
  "INITIAL_BACKOFF_MS = 500"

definition MAX_BACKOFF_MS :: int where
  "MAX_BACKOFF_MS = 30000"

text \<open>White space as \<open>String.prototype.trim\<close> and \<open>parseInt\<close> skip it (Latin-1 part).\<close>

definition isWhiteSpace :: "char \<Rightarrow> bool" where
  "isWhiteSpace c =
     (c = CHR 0x09 \<or> c = CHR 0x0A \<or> c = CHR 0x0B \<or> c = CHR 0x0C \<or> c = CHR 0x0D \<or>
      c = CHR 0x20 \<or> c = CHR 0xA0)"

definition isDigit :: "char \<Rightarrow> bool" where
  "isDigit c = (CHR ''0'' \<le> c \<and> c \<le> CHR ''9'')"

definition digitValue :: "char \<Rightarrow> int" where
  "digitValue c = int (of_char c) - 48"

definition decimalValue :: "string \<Rightarrow> int" where
  "decimalValue ds = foldl (\<lambda>acc c. acc * 10 + digitValue c) 0 ds"

text \<open>
  \<open>parseInt(s, 10)\<close>: leading white space is skipped, one sign is read, then the longest
  run of decimal digits; what follows the digits is ignored. No digit gives \<open>NaN\<close>.
\<close>

definition parseInt10 :: "string \<Rightarrow> int option" where
  "parseInt10 s =
     (let s1 = dropWhile isWhiteSpace s;
          neg = (s1 \<noteq> [] \<and> hd s1 = CHR ''-'');
          s2 = (if s1 \<noteq> [] \<and> (hd s1 = CHR ''-'' \<or> hd s1 = CHR ''+'') then tl s1 else s1);
          ds = takeWhile isDigit s2
      in if ds = [] then None
         else Some (if neg then - decimalValue ds else decimalValue ds))"

text \<open>
  \<open>addJitter\<close>: the factor \<open>0.75 + Math.random() * 0.5\<close>, with the random number \<open>r\<close>
  made a parameter; \<open>Math.round\<close> is \<open>floor (x + 1/2)\<close>.
\<close>

definition addJitter :: "rat \<Rightarrow> int \<Rightarrow> int" where
  "addJitter r baseMs = \<lfloor>of_int baseMs * (3 / 4 + r * (1 / 2)) + 1 / 2\<rfloor>"

definition exponentialMs :: "nat \<Rightarrow> int" where
  "exponentialMs attempt = INITIAL_BACKOFF_MS * 2 ^ attempt"

definition cappedMs :: "nat \<Rightarrow> int" where
  "cappedMs attempt = min (exponentialMs attempt) MAX_BACKOFF_MS"

text \<open>
  The value \<open>calculateBackoff\<close> hands to \<open>addJitter\<close>: \<open>retryAfterSeconds * 1000\<close> when
  the header is a non-empty string and \<open>parseInt\<close> of it is not \<open>NaN\<close>, otherwise the
  capped exponential value.
\<close>

definition backoffBase :: "nat \<Rightarrow> string option \<Rightarrow> int" where
  "backoffBase attempt retryAfterHeader =
     (case retryAfterHeader of
        None \<Rightarrow> cappedMs attempt
      | Some h \<Rightarrow>
          (if h \<noteq> [] then
             (case parseInt10 h of
                Some retryAfterSeconds \<Rightarrow> retryAfterSeconds * 1000
              | None \<Rightarrow> cappedMs attempt)
           else cappedMs attempt))"

definition calculateBackoff :: "rat \<Rightarrow> nat \<Rightarrow> string option \<Rightarrow> int" where
  "calculateBackoff r attempt retryAfterHeader = addJitter r (backoffBase attempt retryAfterHeader)"

section \<open>Section reconciler (daily-note.ts)\<close>

definition nl :: char where
  "nl = CHR 0x0A"

text \<open>\<open>content.split('\n')\<close>: never empty; the empty text is one empty line.\<close>

fun splitLines :: "string \<Rightarrow> string list" where
  "splitLines [] = [[]]"
| "splitLines (c # cs) =
     (if c = nl then [] # splitLines cs
      else (case splitLines cs of
              l # ls \<Rightarrow> (c # l) # ls
            | [] \<Rightarrow> [[c]]))"

text \<open>\<open>lines.join('\n')\<close>.\<close>

fun joinLines :: "string list \<Rightarrow> string" where
  "joinLines [] = []"
| "joinLines [l] = l"
| "joinLines (l # ls) = l @ nl # joinLines ls"

text \<open>\<open>String.prototype.trim\<close>.\<close>

definition trim :: "string \<Rightarrow> string" where
  "trim s = rev (dropWhile isWhiteSpace (rev (dropWhile isWhiteSpace s)))"

text \<open>
  An entry of the heading index of the metadata cache: heading text, level and the line
  on which the heading starts (\<open>position.start.line\<close>).
\<close>

record HeadingCache =
  heading :: string
  level :: nat
  line :: nat

text \<open>\<open>sectionHeader.replace(/^#+\s*/, '').trim()\<close>.\<close>

definition stripHeadingMarks :: "string \<Rightarrow> string" where
  "stripHeadingMarks s =
     (if s \<noteq> [] \<and> hd s = CHR ''#''
      then dropWhile isWhiteSpace (dropWhile (\<lambda>c. c = CHR ''#'') s)
      else s)"

definition sectionHeaderText :: "string \<Rightarrow> string" where
  "sectionHeaderText sectionHeader = trim (stripHeadingMarks sectionHeader)"

definition existingHeading :: "string \<Rightarrow> HeadingCache list \<Rightarrow> HeadingCache option" where
  "existingHeading sectionHeader headings =
     find (\<lambda>h. trim (heading h) = sectionHeaderText sectionHeader) headings"

text \<open>
  The end of the section: the line of the first heading of the index that starts after the
  section's heading and whose level is at most its level, else the number of lines.
\<close>

definition endLineNum :: "HeadingCache list \<Rightarrow> HeadingCache \<Rightarrow> string list \<Rightarrow> nat" where
  "endLineNum headings eh lines =
     (case find (\<lambda>h. line h > line eh \<and> level h \<le> level eh) headings of
        Some h \<Rightarrow> line h
      | None \<Rightarrow> length lines)"

definition beforeSection :: "HeadingCache \<Rightarrow> string list \<Rightarrow> string" where
  "beforeSection eh lines = joinLines (take (line eh) lines)"

definition afterSection :: "HeadingCache list \<Rightarrow> HeadingCache \<Rightarrow> string list \<Rightarrow> string" where
  "afterSection headings eh lines = joinLines (drop (endLineNum headings eh lines) lines)"

text \<open>
  The text \<open>updateDailyNote\<close> writes when it does not remove the section: the section
  replaced where its heading is in the index, the new body appended after two newlines
  where it is not.
\<close>

definition updateNoteContent :: "string \<Rightarrow> HeadingCache list \<Rightarrow> string \<Rightarrow> string \<Rightarrow> string" where
  "updateNoteContent sectionHeader headings content sectionContent =
     (case existingHeading sectionHeader headings of
        Some eh \<Rightarrow>
          (let lines = splitLines content;
               beforeS = beforeSection eh lines;
               afterS = afterSection headings eh lines
           in beforeS @ (if beforeS \<noteq> [] then [nl] else []) @ sectionContent
                @ (if afterS \<noteq> [] then [nl] else []) @ afterS)
      | None \<Rightarrow> content @ [nl, nl] @ sectionContent)"

text \<open>
  \<open>replace(/\n{3,}/g, '\n\n')\<close>: scanning from the left, a run of three or more newlines
  is matched whole and replaced by two; any other character is copied.
\<close>

function collapseNewlines :: "string \<Rightarrow> string" where
  "collapseNewlines s =
     (if s = [] then []
      else if 3 \<le> length (takeWhile (\<lambda>c. c = nl) s)
      then nl # nl # collapseNewlines (dropWhile (\<lambda>c. c = nl) s)
      else hd s # collapseNewlines (tl s))"
  by pat_completeness auto
termination
proof (relation "measure length")
  show "wf (measure length)" by simp
next
  fix s :: string
  assume "3 \<le> length (takeWhile (\<lambda>c. c = nl) s)"
  moreover have "length s = length (takeWhile (\<lambda>c. c = nl) s) + length (dropWhile (\<lambda>c. c = nl) s)"
    by (metis length_append takeWhile_dropWhile_id)
  ultimately have "length (dropWhile (\<lambda>c. c = nl) s) < length s" by linarith
  then show "(dropWhile (\<lambda>c. c = nl) s, s) \<in> measure length" by simp
next
  fix s :: string
  assume "s \<noteq> []"
  then show "(tl s, s) \<in> measure length" by (cases s) simp_all
qed

declare collapseNewlines.simps [simp del]

text \<open>
  \<open>removeSectionFromNote\<close>: \<open>None\<close> when the heading is not in the index (nothing is
  written), else the text written.
\<close>

definition removeSectionFromNote :: "string \<Rightarrow> HeadingCache list \<Rightarrow> string \<Rightarrow> string option" where
  "removeSectionFromNote sectionHeader headings content =
     (case existingHeading sectionHeader headings of
        None \<Rightarrow> None
      | Some eh \<Rightarrow>
          (let lines = splitLines content;
               beforeS = beforeSection eh lines;
               afterS = afterSection headings eh lines
           in Some (trim (collapseNewlines (beforeS @ afterS)))))"

text \<open>
  \<open>updateDailyNote\<close> on the text of a note that exists, for a rendered section body:
  an empty body with \<open>omitEmptySections\<close> removes the section.
\<close>

definition updateDailyNote ::
  "string \<Rightarrow> bool \<Rightarrow> HeadingCache list \<Rightarrow> string \<Rightarrow> string \<Rightarrow> string option" where
  "updateDailyNote sectionHeader omitEmptySections headings content sectionContent =
     (if sectionContent = [] \<and> omitEmptySections
      then removeSectionFromNote sectionHeader headings content
      else Some (updateNoteContent sectionHeader headings content sectionContent))"

text \<open>The number of newlines a text starts with, and whether three newlines in a row occur.\<close>

definition runLen :: "string \<Rightarrow> nat" where
  "runLen s = length (takeWhile (\<lambda>c. c = nl) s)"

fun tripleNl :: "string \<Rightarrow> bool" where
  "tripleNl [] = False"
| "tripleNl (c # cs) = ((c = nl \<and> 2 \<le> runLen cs) \<or> tripleNl cs)"

section \<open>Data model (types.ts)\<close>

text \<open>
  Records follow the declared interfaces; a field the modelled code never reads is left
  out. An optional field is an \<open>option\<close>. The timestamps are the strings the API sends.
\<close>

datatype StatusCategory = Live | Triage | Closed | Merged | Declined | Paused

datatype RoleType = Lead | Reporter | Custom

record IncidentIOUser =
  user_id :: string
  user_name :: string
  user_email :: string

record IncidentStatus =
  status_id :: string
  status_name :: string
  status_category :: StatusCategory

record NamedEntity =
  entity_id :: string
  entity_name :: string

record IncidentRole =
  role_id :: string
  role_name :: string
  role_type :: RoleType

record IncidentRoleAssignment =
  assignee :: IncidentIOUser
  role :: IncidentRole

record IncidentCustomField =
  custom_field_name :: string
  value_text :: "string option"
  value_single_select :: "string option"
  value_multi_select :: "string list option"

record Incident =
  id :: string
  reference :: string
  name :: string
  summary :: "string option"
  created_at :: string
  updated_at :: "string option"
  closed_at :: "string option"
  incident_status :: IncidentStatus
  severity :: NamedEntity
  incident_type :: "NamedEntity option"
  incident_role_assignments :: "IncidentRoleAssignment list"
  custom_field_entries :: "IncidentCustomField list option"

record NewIncidentStatus =
  new_status_id :: string
  new_status_name :: string
  new_status_category :: string

record IncidentUpdate =
  update_id :: string
  update_created_at :: string
  message :: "string option"
  new_incident_status :: "NewIncidentStatus option"
  new_severity :: "NamedEntity option"

datatype FollowUpStatus = FollowUpOutstanding | FollowUpCompleted | FollowUpDeleted

record FollowUp =
  follow_up_id :: string
  follow_up_title :: string
  follow_up_status :: FollowUpStatus

datatype ActionStatus = ActionOutstanding | ActionCompleted | ActionDeleted | ActionNotDoing

record IncidentAction =
  action_id :: string
  action_description :: "string option"
  action_status :: ActionStatus

record IncidentAttachment =
  attachment_id :: string
  attachment_title :: "string option"
  attachment_permalink :: string

record IncidentTimestampValue =
  incident_timestamp_name :: string
  timestamp_value :: "string option"

record Schedule =
  schedule_id :: string
  schedule_name :: string

record ScheduleEntry =
  entry_user_email :: "string option"

record FullRole =
  fr_role :: string
  fr_roleType :: RoleType
  fr_assignee :: string
  fr_isUser :: bool

text \<open>
  \<open>durationMinutes\<close> is \<open>None\<close> when undefined; a number is an \<open>int option\<close>, with
  \<open>None\<close> for \<open>NaN\<close> (a timestamp that does not parse).
\<close>

record FullIncident =
  fi_id :: string
  fi_reference :: string
  fi_name :: string
  fi_summary :: "string option"
  fi_created_at :: string
  fi_updated_at :: "string option"
  fi_closed_at :: "string option"
  fi_status :: string
  fi_statusCategory :: StatusCategory
  fi_severity :: string
  fi_incidentType :: "string option"
  fi_url :: string
  fi_durationMinutes :: "int option option"
  fi_roles :: "FullRole list"
  fi_customFields :: "(string \<times> string) list"
  fi_timestamps :: "(string \<times> string) list"
  fi_updates :: "IncidentUpdate list"
  fi_actions :: "IncidentAction list"
  fi_followUps :: "FollowUp list"
  fi_attachments :: "IncidentAttachment list"

record IncidentResult =
  ir_reference :: string
  ir_name :: string
  ir_status :: string

text \<open>\<open>onCall\<close> is the list of schedule names, or \<open>None\<close> for \<open>null\<close>.\<close>

record SyncResult =
  onCall :: "string list option"
  incidents :: "IncidentResult list"
  fullIncidents :: "FullIncident list"

section \<open>JavaScript values\<close>

text \<open>Truthiness of a string and of an optional string.\<close>

definition truthy :: "string option \<Rightarrow> bool" where
  "truthy x = (case x of None \<Rightarrow> False | Some s \<Rightarrow> s \<noteq> [])"

text \<open>\<open>a || d\<close> on strings.\<close>

definition orElse :: "string \<Rightarrow> string \<Rightarrow> string" where
  "orElse a d = (if a \<noteq> [] then a else d)"

text \<open>\<open>\<le>\<close> on numbers: false when a side is \<open>NaN\<close>.\<close>

definition numLe :: "int option \<Rightarrow> int option \<Rightarrow> bool" where
  "numLe a b = (case a of None \<Rightarrow> False | Some x \<Rightarrow> (case b of None \<Rightarrow> False | Some y \<Rightarrow> x \<le> y))"

text \<open>
  \<open>new Date(s).getTime()\<close> is a parameter \<open>parseDate\<close> of type
  \<open>string \<Rightarrow> int option\<close>: the milliseconds since the epoch, \<open>None\<close> for an invalid date.

  \<open>setHours(0, 0, 0, 0)\<close> and \<open>setHours(23, 59, 59, 999)\<close> work in the local time of the
  host, whose offset from UTC may change from one day to the next and within a day. They
  are parameters \<open>startOfDay\<close> and \<open>endOfDay\<close> of type \<open>int \<Rightarrow> int option\<close>: from the time
  value of a valid date to the time value of the date they leave, \<open>None\<close> when that date is
  not valid. On an invalid date they leave it invalid:
\<close>

definition setHoursOn :: "(int \<Rightarrow> int option) \<Rightarrow> int option \<Rightarrow> int option" where
  "setHoursOn setHours date = (case date of None \<Rightarrow> None | Some t \<Rightarrow> setHours t)"

text \<open>\<open>Math.round((closed - created) / (1000 * 60))\<close> on two parsed timestamps.\<close>

definition minutesBetween :: "(string \<Rightarrow> int option) \<Rightarrow> string \<Rightarrow> string \<Rightarrow> int option" where
  "minutesBetween parseDate createdAt closedAt =
     (case parseDate createdAt of
        None \<Rightarrow> None
      | Some c \<Rightarrow>
          (case parseDate closedAt of
             None \<Rightarrow> None
           | Some d \<Rightarrow> Some ((d - c + 30000) div 60000)))"

section \<open>Date-window filter (daily-note.ts)\<close>

text \<open>
  \<open>filterIncidentsForDate\<close>; the target date is the time value of the \<open>Date\<close>, \<open>None\<close>
  for an invalid one.
\<close>

definition filterIncidentsForDate ::
  "(string \<Rightarrow> int option) \<Rightarrow> (int \<Rightarrow> int option) \<Rightarrow> (int \<Rightarrow> int option)
     \<Rightarrow> FullIncident list \<Rightarrow> int option \<Rightarrow> FullIncident list" where
  "filterIncidentsForDate parseDate startOfDay endOfDay incs date =
     (let dateStart = setHoursOn startOfDay date;
          dateEnd = setHoursOn endOfDay date
      in filter (\<lambda>inc.
           let createdAt = parseDate (fi_created_at inc);
               closedAt = (case fi_closed_at inc of
                             None \<Rightarrow> None
                           | Some s \<Rightarrow> if s \<noteq> [] then Some (parseDate s) else None);
               createdBeforeOrOn = numLe createdAt dateEnd;
               stillOpenOnDate = (case closedAt of
                                    None \<Rightarrow> True
                                  | Some c \<Rightarrow> numLe dateStart c)
           in createdBeforeOrOn \<and> stillOpenOnDate) incs)"

text \<open>
  The predicate of the specification, in its words, for the instants \<open>dayStart\<close>
  (00:00:00.000 local) and \<open>dayEnd\<close> (23:59:59.999 local) of the target day: the creation
  instant is at or before the end of the target day, and there is no close time or the
  close instant is at or after the start of the target day.
\<close>

definition isActiveOn :: "(string \<Rightarrow> int option) \<Rightarrow> int \<Rightarrow> int \<Rightarrow> FullIncident \<Rightarrow> bool" where
  "isActiveOn parseDate dayStart dayEnd inc =
     ((case parseDate (fi_created_at inc) of
         None \<Rightarrow> False
       | Some createdAt \<Rightarrow> createdAt \<le> dayEnd)
      \<and> (case fi_closed_at inc of
            None \<Rightarrow> True
          | Some s \<Rightarrow>
              s = [] \<or>
              (case parseDate s of
                 None \<Rightarrow> False
               | Some closedAt \<Rightarrow> dayStart \<le> closedAt)))"

section \<open>API client (api.ts)\<close>

subsection \<open>Requests with retry\<close>

text \<open>
  The errors \<open>request\<close> and \<open>syncData\<close> throw: the \<open>API request failed with status\<close>
  error, an error thrown by \<open>requestUrl\<close> (with its message), the
  \<open>Max retries (5) exceeded\<close> error and the \<open>Could not find user matching\<close> error.
\<close>

datatype error =
    ApiRequestFailed int
  | ThrownError string
  | MaxRetriesExceeded
  | UserNotFound string

text \<open>
  What one call of \<open>requestUrl\<close> gives: a response with its status, its \<open>retry-after\<close>
  header and its parsed body, or an \<open>Error\<close> thrown with a message (what \<open>requestUrl\<close>
  throws is taken to be an \<open>Error\<close> object).
\<close>

datatype 'a attempt_outcome =
    Response int "string option" 'a
  | Throws string

text \<open>\<open>String.prototype.includes\<close>.\<close>

fun strIncludes :: "string \<Rightarrow> string \<Rightarrow> bool" where
  "strIncludes [] p = (p = [])"
| "strIncludes (c # cs) p = (take (length p) (c # cs) = p \<or> strIncludes cs p)"

definition API_REQUEST_FAILED :: string where
  "API_REQUEST_FAILED = ''API request failed''"

definition afterDelay :: "int \<Rightarrow> 'r \<times> int list \<Rightarrow> 'r \<times> int list" where
  "afterDelay backoffMs r = (fst r, backoffMs # snd r)"

text \<open>
  The loop of \<open>request\<close> from attempt number \<open>attempt\<close> on. \<open>outcomes i\<close> is what the
  call of attempt \<open>i\<close> gives and \<open>rnd i\<close> the random number drawn for its backoff. The
  result comes with the delays slept, in order.
\<close>

function requestFrom ::
  "(nat \<Rightarrow> rat) \<Rightarrow> (nat \<Rightarrow> 'a attempt_outcome) \<Rightarrow> nat \<Rightarrow> error option
     \<Rightarrow> (error + 'a) \<times> int list" where
  "requestFrom rnd outcomes attempt lastError =
     (if attempt < MAX_RETRIES then
        (case outcomes attempt of
           Response status retryAfter json \<Rightarrow>
             (if 200 \<le> status \<and> status < 300 then (Inr json, [])
              else if status = 429 then
                afterDelay (calculateBackoff (rnd attempt) attempt retryAfter)
                  (requestFrom rnd outcomes (Suc attempt) lastError)
              else if 500 \<le> status then
                afterDelay (calculateBackoff (rnd attempt) attempt None)
                  (requestFrom rnd outcomes (Suc attempt) lastError)
              else (Inl (ApiRequestFailed status), []))
         | Throws msg \<Rightarrow>
             (if \<not> strIncludes msg API_REQUEST_FAILED then
                afterDelay (calculateBackoff (rnd attempt) attempt None)
                  (requestFrom rnd outcomes (Suc attempt) (Some (ThrownError msg)))
              else (Inl (ThrownError msg), [])))
      else (Inl (case lastError of Some e \<Rightarrow> e | None \<Rightarrow> MaxRetriesExceeded), []))"
  by pat_completeness auto
termination
  by (relation "measure (\<lambda>(rnd, outcomes, attempt, lastError). MAX_RETRIES - attempt)") auto

declare requestFrom.simps [simp del]

definition request ::
  "(nat \<Rightarrow> rat) \<Rightarrow> (nat \<Rightarrow> 'a attempt_outcome) \<Rightarrow> (error + 'a) \<times> int list" where
  "request rnd outcomes = requestFrom rnd outcomes 0 None"

text \<open>
  For the statement of the retry rule: the outcomes after which the loop sleeps and goes
  on, the backoff slept after attempt \<open>i\<close>, and the message of the last error thrown
  among the first \<open>n\<close> attempts.
\<close>

definition retryable :: "'a attempt_outcome \<Rightarrow> bool" where
  "retryable out =
     (case out of
        Response status retryAfter json \<Rightarrow> status = 429 \<or> 500 \<le> status
      | Throws msg \<Rightarrow> \<not> strIncludes msg API_REQUEST_FAILED)"

definition backoffAt :: "(nat \<Rightarrow> rat) \<Rightarrow> (nat \<Rightarrow> 'a attempt_outcome) \<Rightarrow> nat \<Rightarrow> int" where
  "backoffAt rnd outcomes i =
     calculateBackoff (rnd i) i
       (case outcomes i of
          Response status retryAfter json \<Rightarrow> if status = 429 then retryAfter else None
        | Throws msg \<Rightarrow> None)"

primrec lastThrown :: "(nat \<Rightarrow> 'a attempt_outcome) \<Rightarrow> nat \<Rightarrow> string option" where
  "lastThrown outcomes 0 = None"
| "lastThrown outcomes (Suc n) =
     (case outcomes n of
        Throws msg \<Rightarrow> Some msg
      | Response status retryAfter json \<Rightarrow> lastThrown outcomes n)"

definition lastErrorStep ::
  "(nat \<Rightarrow> 'a attempt_outcome) \<Rightarrow> error option \<Rightarrow> nat \<Rightarrow> error option" where
  "lastErrorStep outcomes le i =
     (case outcomes i of
        Throws msg \<Rightarrow> Some (ThrownError msg)
      | Response status retryAfter json \<Rightarrow> le)"

subsection \<open>Responses of the API\<close>

text \<open>
  The selection \<open>getAllIncidentsPaginated\<close> asks for: incidents created within the last
  \<open>days\<close> days (\<open>created_at[gte]\<close> of the cutoff date) or the live and triage ones.
\<close>

datatype IncidentFilter = CreatedWithinDays int | ActiveOnly

text \<open>
  What \<open>request\<close> gives for each endpoint during one sync, after its retries: an error
  or the typed body. The per-schedule and per-incident endpoints are keyed by the id in
  their query, a page of incidents by the selection and the \<open>after\<close> cursor; a page comes
  with the cursor of \<open>pagination_meta\<close>.
\<close>

record ApiResponses =
  users_response :: "error + IncidentIOUser list"
  incidents_response :: "error + Incident list"
  incidents_page_response ::
    "IncidentFilter \<Rightarrow> string option \<Rightarrow> error + Incident list \<times> string option"
  schedules_response :: "error + Schedule list"
  schedule_entries_response :: "string \<Rightarrow> error + ScheduleEntry list"
  incident_updates_response :: "string \<Rightarrow> error + IncidentUpdate list"
  follow_ups_response :: "string \<Rightarrow> error + FollowUp list"
  actions_response :: "string \<Rightarrow> error + IncidentAction list"
  incident_attachments_response :: "string \<Rightarrow> error + IncidentAttachment list"
  incident_timestamp_values_response :: "string \<Rightarrow> error + IncidentTimestampValue list"

subsection \<open>Users and candidate incidents\<close>

text \<open>\<open>String.prototype.toLowerCase\<close> on the Latin-1 range.\<close>

definition toLowerChar :: "char \<Rightarrow> char" where
  "toLowerChar c =
     (let n = (of_char c :: nat)
      in if (65 \<le> n \<and> n \<le> 90) \<or> (192 \<le> n \<and> n \<le> 222 \<and> n \<noteq> 215)
         then char_of (n + 32) else c)"

definition toLowerCase :: "string \<Rightarrow> string" where
  "toLowerCase s = map toLowerChar s"

definition userMatches :: "string \<Rightarrow> IncidentIOUser \<Rightarrow> bool" where
  "userMatches identifier u =
     (strIncludes (toLowerCase (user_email u)) (toLowerCase identifier)
      \<or> strIncludes (toLowerCase (user_name u)) (toLowerCase identifier))"

definition findUser :: "ApiResponses \<Rightarrow> string \<Rightarrow> error + IncidentIOUser option" where
  "findUser env identifier =
     (case users_response env of
        Inl e \<Rightarrow> Inl e
      | Inr users \<Rightarrow> Inr (find (userMatches identifier) users))"

definition getActiveIncidents :: "ApiResponses \<Rightarrow> error + Incident list" where
  "getActiveIncidents env =
     (case incidents_response env of
        Inl e \<Rightarrow> Inl e
      | Inr incs \<Rightarrow>
          Inr (filter (\<lambda>inc. status_category (incident_status inc) = Live
                           \<or> status_category (incident_status inc) = Triage) incs))"

definition getUserIncidents :: "ApiResponses \<Rightarrow> string \<Rightarrow> error + Incident list" where
  "getUserIncidents env userId =
     (case getActiveIncidents env of
        Inl e \<Rightarrow> Inl e
      | Inr incs \<Rightarrow>
          Inr (filter (\<lambda>inc. list_ex (\<lambda>r. user_id (assignee r) = userId \<and> role_type (role r) = Lead)
                                (incident_role_assignments inc)) incs))"

text \<open>
  The \<open>do ... while (cursor)\<close> loop of \<open>getAllIncidentsPaginated\<close>, from the request
  with cursor \<open>cursor\<close> on. It need not end (a server may hand out cursors for ever): the
  value is \<open>None\<close> then.
\<close>

partial_function (option) fetchPages ::
  "ApiResponses \<Rightarrow> IncidentFilter \<Rightarrow> string option \<Rightarrow> Incident list
     \<Rightarrow> (error + Incident list) option" where
  "fetchPages env flt cursor allIncidents =
     (case incidents_page_response env flt cursor of
        Inl e \<Rightarrow> Some (Inl e)
      | Inr page \<Rightarrow>
          (if length (fst page) < 250 then Some (Inr (allIncidents @ fst page))
           else if truthy (snd page) then fetchPages env flt (snd page) (allIncidents @ fst page)
           else Some (Inr (allIncidents @ fst page))))"

declare fetchPages.simps [code]

definition getAllIncidentsPaginated ::
  "ApiResponses \<Rightarrow> IncidentFilter \<Rightarrow> (error + Incident list) option" where
  "getAllIncidentsPaginated env flt = fetchPages env flt None []"

text \<open>\<open>HistoricalSyncOptions\<close> is its \<open>days\<close>; zero days select the active incidents.\<close>

definition getUserIncidentsWithHistory ::
  "ApiResponses \<Rightarrow> string \<Rightarrow> int \<Rightarrow> (error + Incident list) option" where
  "getUserIncidentsWithHistory env userId days =
     (case getAllIncidentsPaginated env (if days \<noteq> 0 then CreatedWithinDays days else ActiveOnly) of
        None \<Rightarrow> None
      | Some (Inl e) \<Rightarrow> Some (Inl e)
      | Some (Inr allIncidents) \<Rightarrow>
          Some (Inr (filter (\<lambda>inc. list_ex (\<lambda>r. user_id (assignee r) = userId)
                                     (incident_role_assignments inc)) allIncidents)))"

subsection \<open>Full incident details\<close>

fun joinWith :: "string \<Rightarrow> string list \<Rightarrow> string" where
  "joinWith sep [] = []"
| "joinWith sep [x] = x"
| "joinWith sep (x # xs) = x @ sep @ joinWith sep xs"

definition strOf :: "string option \<Rightarrow> string" where
  "strOf x = (case x of Some s \<Rightarrow> s | None \<Rightarrow> [])"

text \<open>The value of a custom field entry: its text, else its single select, else its
  multi select joined.\<close>

definition customFieldValue :: "IncidentCustomField \<Rightarrow> string" where
  "customFieldValue entry =
     (if truthy (value_text entry) then strOf (value_text entry)
      else if truthy (value_single_select entry) then strOf (value_single_select entry)
      else (case value_multi_select entry of
              Some vs \<Rightarrow> if vs \<noteq> [] then joinWith '', '' vs else []
            | None \<Rightarrow> []))"

text \<open>
  \<open>buildBasicFullIncident\<close>. Under the declared types every role assignment has its
  role and assignee and the status has its category, so the guards for missing ones
  keep everything. The duration is computed when \<open>closed_at\<close> and \<open>created_at\<close> are both
  truthy.
\<close>

definition buildBasicFullIncident ::
  "(string \<Rightarrow> int option) \<Rightarrow> Incident \<Rightarrow> string \<Rightarrow> FullIncident" where
  "buildBasicFullIncident parseDate incident userId =
     \<lparr>fi_id = id incident,
      fi_reference = reference incident,
      fi_name = orElse (name incident) ''Untitled Incident'',
      fi_summary = summary incident,
      fi_created_at = created_at incident,
      fi_updated_at = updated_at incident,
      fi_closed_at = closed_at incident,
      fi_status = orElse (status_name (incident_status incident)) ''Unknown'',
      fi_statusCategory = status_category (incident_status incident),
      fi_severity = orElse (entity_name (severity incident)) ''Unknown'',
      fi_incidentType = map_option entity_name (incident_type incident),
      fi_url = ''https://app.incident.io/incidents/'' @ reference incident,
      fi_durationMinutes =
        (case closed_at incident of
           None \<Rightarrow> None
         | Some c \<Rightarrow>
             if c \<noteq> [] \<and> created_at incident \<noteq> []
             then Some (minutesBetween parseDate (created_at incident) c)
             else None),
      fi_roles =
        map (\<lambda>a. \<lparr>fr_role = orElse (role_name (role a)) ''Unknown'',
                   fr_roleType = role_type (role a),
                   fr_assignee = orElse (user_name (assignee a)) ''Unknown'',
                   fr_isUser = (user_id (assignee a) = userId)\<rparr>)
          (incident_role_assignments incident),
      fi_customFields =
        filter (\<lambda>field. snd field \<noteq> [])
          (map (\<lambda>entry. (custom_field_name entry, customFieldValue entry))
             (filter (\<lambda>entry. custom_field_name entry \<noteq> [])
                (case custom_field_entries incident of None \<Rightarrow> [] | Some es \<Rightarrow> es))),
      fi_timestamps = [],
      fi_updates = [],
      fi_actions = [],
      fi_followUps = [],
      fi_attachments = []\<rparr>"

text \<open>The sub-resource fetches: any failure of the request gives the empty list.\<close>

definition getIncidentUpdates :: "ApiResponses \<Rightarrow> string \<Rightarrow> IncidentUpdate list" where
  "getIncidentUpdates env incidentId =
     (case incident_updates_response env incidentId of Inl e \<Rightarrow> [] | Inr us \<Rightarrow> us)"

definition getIncidentFollowUps :: "ApiResponses \<Rightarrow> string \<Rightarrow> FollowUp list" where
  "getIncidentFollowUps env incidentId =
     (case follow_ups_response env incidentId of
        Inl e \<Rightarrow> []
      | Inr fs \<Rightarrow> filter (\<lambda>fu. follow_up_status fu \<noteq> FollowUpDeleted) fs)"

definition getIncidentActions :: "ApiResponses \<Rightarrow> string \<Rightarrow> IncidentAction list" where
  "getIncidentActions env incidentId =
     (case actions_response env incidentId of
        Inl e \<Rightarrow> []
      | Inr as \<Rightarrow> filter (\<lambda>a. action_status a \<noteq> ActionDeleted) as)"

definition getIncidentAttachments :: "ApiResponses \<Rightarrow> string \<Rightarrow> IncidentAttachment list" where
  "getIncidentAttachments env incidentId =
     (case incident_attachments_response env incidentId of Inl e \<Rightarrow> [] | Inr as \<Rightarrow> as)"

text \<open>
  The timestamps are sorted by their instant with a stable sort. Where a value is no
  valid date the comparator of the source gives \<open>NaN\<close> and the order JavaScript produces
  is left to the implementation; the model puts such values first.
\<close>

definition getIncidentTimestamps ::
  "(string \<Rightarrow> int option) \<Rightarrow> ApiResponses \<Rightarrow> string \<Rightarrow> (string \<times> string) list" where
  "getIncidentTimestamps parseDate env incidentId =
     (case incident_timestamp_values_response env incidentId of
        Inl e \<Rightarrow> []
      | Inr tvs \<Rightarrow>
          sort_key (\<lambda>t. parseDate (snd t))
            (map (\<lambda>tv. (incident_timestamp_name tv, strOf (timestamp_value tv)))
               (filter (\<lambda>tv. truthy (timestamp_value tv)) tvs)))"

definition closedUpdate :: "IncidentUpdate list \<Rightarrow> IncidentUpdate option" where
  "closedUpdate updates =
     find (\<lambda>u. map_option new_status_category (new_incident_status u) = Some ''closed'') updates"

definition getFullIncidentDetails ::
  "(string \<Rightarrow> int option) \<Rightarrow> ApiResponses \<Rightarrow> Incident \<Rightarrow> string \<Rightarrow> FullIncident" where
  "getFullIncidentDetails parseDate env incident userId =
     (let updates = getIncidentUpdates env (id incident);
          fullIncident = (buildBasicFullIncident parseDate incident userId)
            \<lparr>fi_updates := updates,
             fi_followUps := getIncidentFollowUps env (id incident),
             fi_actions := getIncidentActions env (id incident),
             fi_attachments := getIncidentAttachments env (id incident),
             fi_timestamps := getIncidentTimestamps parseDate env (id incident)\<rparr>
      in if \<not> truthy (fi_closed_at fullIncident) \<and> fi_statusCategory fullIncident = Closed
         then (case closedUpdate updates of
                 Some cu \<Rightarrow>
                   fullIncident
                     \<lparr>fi_closed_at := Some (update_created_at cu),
                      fi_durationMinutes :=
                        Some (minutesBetween parseDate (fi_created_at fullIncident)
                                (update_created_at cu))\<rparr>
               | None \<Rightarrow> fullIncident)
         else fullIncident)"

subsection \<open>On-call lookup\<close>

definition scheduleCheck :: "ApiResponses \<Rightarrow> string \<Rightarrow> Schedule \<Rightarrow> string option" where
  "scheduleCheck env userEmail schedule =
     (case schedule_entries_response env (schedule_id schedule) of
        Inl e \<Rightarrow> None
      | Inr finalEntries \<Rightarrow>
          if list_ex (\<lambda>entry. map_option toLowerCase (entry_user_email entry)
                               = Some (toLowerCase userEmail)) finalEntries
          then Some (schedule_name schedule) else None)"

definition getOnCallSchedules :: "ApiResponses \<Rightarrow> string \<Rightarrow> error + string list" where
  "getOnCallSchedules env userEmail =
     (case schedules_response env of
        Inl e \<Rightarrow> Inl e
      | Inr schedules \<Rightarrow> Inr (List.map_filter (scheduleCheck env userEmail) schedules))"

subsection \<open>Batches and the whole sync\<close>

text \<open>
  A settled promise is an error or a value. \<open>fulfilled\<close> are the values of the fulfilled
  ones of a batch, in order.
\<close>

definition fulfilled :: "(error + 'r) list \<Rightarrow> 'r list" where
  "fulfilled settledResults =
     List.map_filter (\<lambda>r. case r of Inl e \<Rightarrow> None | Inr v \<Rightarrow> Some v) settledResults"

text \<open>
  The loop of \<open>processInBatches\<close> from index \<open>i\<close> on; \<open>items.slice(i, i + batchSize)\<close> is
  \<open>take batchSize (drop i items)\<close>. With a batch size of 0 the loop does not end.
\<close>

partial_function (option) processBatchesFrom ::
  "'t list \<Rightarrow> nat \<Rightarrow> ('t \<Rightarrow> error + 'r) \<Rightarrow> nat \<Rightarrow> 'r list \<Rightarrow> 'r list option" where
  "processBatchesFrom items batchSize processor i results =
     (if i < length items
      then processBatchesFrom items batchSize processor (i + batchSize)
             (results @ fulfilled (map processor (take batchSize (drop i items))))
      else Some results)"

declare processBatchesFrom.simps [code]

definition processInBatches ::
  "'t list \<Rightarrow> nat \<Rightarrow> ('t \<Rightarrow> error + 'r) \<Rightarrow> 'r list option" where
  "processInBatches items batchSize processor = processBatchesFrom items batchSize processor 0 []"

definition BATCH_SIZE :: nat where
  "BATCH_SIZE = 5"

definition incidentResult :: "Incident \<Rightarrow> IncidentResult" where
  "incidentResult incident =
     \<lparr>ir_reference = reference incident, ir_name = name incident,
      ir_status = status_name (incident_status incident)\<rparr>"

text \<open>
  The candidate incidents of \<open>syncData\<close>: with historical options those of
  \<open>getUserIncidentsWithHistory\<close>, without those of \<open>getUserIncidents\<close>.
\<close>

definition candidateIncidents ::
  "ApiResponses \<Rightarrow> string \<Rightarrow> int option \<Rightarrow> (error + Incident list) option" where
  "candidateIncidents env userId historicalOptions =
     (case historicalOptions of
        Some days \<Rightarrow> getUserIncidentsWithHistory env userId days
      | None \<Rightarrow> Some (getUserIncidents env userId))"

text \<open>
  \<open>syncData\<close>: \<open>None\<close> when it does not return, \<open>Some (Inl e)\<close> when it throws \<open>e\<close>.
  The on-call lookup and the fetch of the candidates run under one \<open>Promise.all\<close>, which
  rejects as soon as one of them does; when both fail the model reports the error of the
  on-call lookup.
\<close>

definition syncData ::
  "(string \<Rightarrow> int option) \<Rightarrow> ApiResponses \<Rightarrow> string \<Rightarrow> int option
     \<Rightarrow> (error + SyncResult) option" where
  "syncData parseDate env userIdentifier historicalOptions =
     (case findUser env userIdentifier of
        Inl e \<Rightarrow> Some (Inl e)
      | Inr None \<Rightarrow> Some (Inl (UserNotFound userIdentifier))
      | Inr (Some user) \<Rightarrow>
          (case getOnCallSchedules env (user_email user) of
             Inl e \<Rightarrow> Some (Inl e)
           | Inr onCallSchedules \<Rightarrow>
               (case candidateIncidents env (user_id user) historicalOptions of
                  None \<Rightarrow> None
                | Some (Inl e) \<Rightarrow> Some (Inl e)
                | Some (Inr incs) \<Rightarrow>
                    (case processInBatches incs BATCH_SIZE
                            (\<lambda>incident. Inr (getFullIncidentDetails parseDate env incident (user_id user))) of
                       None \<Rightarrow> None
                     | Some full \<Rightarrow>
                         Some (Inr \<lparr>onCall = (if length onCallSchedules > 0
                                               then Some onCallSchedules else None),
                                    incidents = map incidentResult incs,
                                    fullIncidents = full\<rparr>)))))"

section \<open>Example inputs\<close>

text \<open>A note with a section between other content, and its heading index.\<close>

definition note_mid :: string where
  "note_mid = joinLines [''# Log'', ''intro'', ''## Incidents'', ''old 1'', ''old 2'', ''## Next'', ''tail'']"

definition index_mid :: "HeadingCache list" where
  "index_mid =
     [\<lparr>heading = ''Log'', level = 1, line = 0\<rparr>,
      \<lparr>heading = ''Incidents'', level = 2, line = 2\<rparr>,
      \<lparr>heading = ''Next'', level = 2, line = 5\<rparr>]"

definition body_new :: string where
  "body_new = joinLines [''## Incidents'', ''new'']"

text \<open>A note that starts with one empty line, followed by the section.\<close>

definition note_blank_first :: string where
  "note_blank_first = joinLines ['''', ''## Incidents'', ''old'']"

definition index_blank_first :: "HeadingCache list" where
  "index_blank_first = [\<lparr>heading = ''Incidents'', level = 2, line = 1\<rparr>]"

text \<open>A note with a blank line before the section and before the next heading.\<close>

definition note_spaced :: string where
  "note_spaced = joinLines [''intro'', '''', ''## Incidents'', ''old'', '''', ''## Next'', ''tail'']"

definition index_spaced :: "HeadingCache list" where
  "index_spaced =
     [\<lparr>heading = ''Incidents'', level = 2, line = 2\<rparr>,
      \<lparr>heading = ''Next'', level = 2, line = 5\<rparr>]"

text \<open>A note whose last section is the managed one; its first line is indented and two
  blank lines separate two of its paragraphs.\<close>

definition note_last :: string where
  "note_last = joinLines [''  code'', ''a'', '''', '''', ''b'', ''## Incidents'', ''old'']"

definition index_last :: "HeadingCache list" where
  "index_last = [\<lparr>heading = ''Incidents'', level = 2, line = 5\<rparr>]"

text \<open>
  Incidents as the tests of the filter build them, and a parser that knows the instants
  the examples use (milliseconds since the epoch, UTC).
\<close>

definition example_incident :: "string \<Rightarrow> string \<Rightarrow> string option \<Rightarrow> FullIncident" where
  "example_incident ref c cl =
     \<lparr>fi_id = ''123'', fi_reference = ref, fi_name = ''Test Incident'', fi_summary = None,
      fi_created_at = c, fi_updated_at = None, fi_closed_at = cl, fi_status = ''Active'',
      fi_statusCategory = Live, fi_severity = ''High'', fi_incidentType = None,
      fi_url = ''https://app.incident.io/incidents/INC-123'', fi_durationMinutes = None,
      fi_roles = [], fi_customFields = [], fi_timestamps = [], fi_updates = [],
      fi_actions = [], fi_followUps = [], fi_attachments = []\<rparr>"

definition example_parseDate :: "string \<Rightarrow> int option" where
  "example_parseDate s =
     (if s = ''2024-01-10T10:00:00Z'' then Some 1704880800000
      else if s = ''2024-01-14T10:00:00Z'' then Some 1705226400000
      else if s = ''2024-01-15T00:00:00Z'' then Some 1705276800000
      else if s = ''2024-01-15T10:00:00Z'' then Some 1705312800000
      else if s = ''2024-01-15T23:59:59Z'' then Some 1705363199000
      else if s = ''2024-01-16T10:00:00Z'' then Some 1705399200000
      else if s = ''2024-01-20T10:00:00Z'' then Some 1705744800000
      else if s = ''2024-03-11T03:30:00Z'' then Some 1710127800000
      else if s = ''2024-03-11T04:30:00Z'' then Some 1710131400000
      else None)"

text \<open>The day bounds on a host whose local time is UTC.\<close>

definition utc_startOfDay :: "int \<Rightarrow> int option" where
  "utc_startOfDay t = Some (t div 86400000 * 86400000)"

definition utc_endOfDay :: "int \<Rightarrow> int option" where
  "utc_endOfDay t = Some (t div 86400000 * 86400000 + 86399999)"

text \<open>
  The day bounds on a host in New York. On 2024-03-10 the clocks go forward: the day
  starts at 05:00 UTC and ends 23 hours later, at 03:59:59.999 UTC of the next day. For
  the other instants the bounds of winter time (five hours behind UTC) are given.
\<close>

definition ny_startOfDay :: "int \<Rightarrow> int option" where
  "ny_startOfDay t =
     (if 1710046800000 \<le> t \<and> t \<le> 1710129599999 then Some 1710046800000
      else Some ((t - 18000000) div 86400000 * 86400000 + 18000000))"

definition ny_endOfDay :: "int \<Rightarrow> int option" where
  "ny_endOfDay t =
     (if 1710046800000 \<le> t \<and> t \<le> 1710129599999 then Some 1710129599999
      else Some ((t - 18000000) div 86400000 * 86400000 + 18000000 + 86399999))"

text \<open>Incidents created at 23:30 and at 00:30 New York time around the end of that day.\<close>

definition inc_before_short_day_end :: FullIncident where
  "inc_before_short_day_end = example_incident ''INC-5'' ''2024-03-11T03:30:00Z'' None"

definition inc_after_short_day_end :: FullIncident where
  "inc_after_short_day_end = example_incident ''INC-6'' ''2024-03-11T04:30:00Z'' None"

definition inc_closed_at_midnight :: FullIncident where
  "inc_closed_at_midnight =
     example_incident ''INC-1'' ''2024-01-10T10:00:00Z'' (Some ''2024-01-15T00:00:00Z'')"

definition inc_created_at_day_end :: FullIncident where
  "inc_created_at_day_end =
     example_incident ''INC-2'' ''2024-01-15T23:59:59Z'' (Some ''2024-01-16T10:00:00Z'')"

definition inc_created_later :: FullIncident where
  "inc_created_later = example_incident ''INC-3'' ''2024-01-20T10:00:00Z'' None"

definition inc_closed_before :: FullIncident where
  "inc_closed_before =
     example_incident ''INC-4'' ''2024-01-10T10:00:00Z'' (Some ''2024-01-14T10:00:00Z'')"

text \<open>
  Outcome sequences of \<open>requestUrl\<close>: a timeout, a 503 and then a 404; a server that is
  never reached; the random number 1/2 (jitter factor 1) for every backoff.
\<close>

definition outcomes_404 :: "nat \<Rightarrow> unit attempt_outcome" where
  "outcomes_404 i =
     (if i = 0 then Throws ''timeout''
      else if i = 1 then Response 503 None ()
      else Response 404 None ())"

definition outcomes_ok_third :: "nat \<Rightarrow> nat attempt_outcome" where
  "outcomes_ok_third i = (if i < 2 then Response 429 (Some ''2'') 0 else Response 200 None 7)"

definition outcomes_down :: "nat \<Rightarrow> unit attempt_outcome" where
  "outcomes_down i = Throws ''boom''"

definition rnd_mid :: "nat \<Rightarrow> rat" where
  "rnd_mid i = 1 / 2"

text \<open>Users, raw incidents and the responses of an API for one sync.\<close>

definition alice :: IncidentIOUser where
  "alice = \<lparr>user_id = ''U1'', user_name = ''Alice Doe'', user_email = ''alice@example.com''\<rparr>"

definition bob :: IncidentIOUser where
  "bob = \<lparr>user_id = ''U2'', user_name = ''Bob Roe'', user_email = ''bob@example.com''\<rparr>"

definition lead_by :: "IncidentIOUser \<Rightarrow> IncidentRoleAssignment" where
  "lead_by u =
     \<lparr>assignee = u, role = \<lparr>role_id = ''R1'', role_name = ''Incident Lead'', role_type = Lead\<rparr>\<rparr>"

definition raw_incident :: "string \<Rightarrow> StatusCategory \<Rightarrow> string \<Rightarrow> string option \<Rightarrow> Incident" where
  "raw_incident n cat createdAt closedAt =
     \<lparr>id = ''I'' @ n, reference = ''INC-'' @ n, name = ''Database down'', summary = None,
      created_at = createdAt, updated_at = None, closed_at = closedAt,
      incident_status = \<lparr>status_id = ''S1'', status_name = ''Current'', status_category = cat\<rparr>,
      severity = \<lparr>entity_id = ''SEV1'', entity_name = ''Critical''\<rparr>,
      incident_type = None,
      incident_role_assignments = [lead_by alice],
      custom_field_entries = None\<rparr>"

definition closing_update :: "string \<Rightarrow> IncidentUpdate" where
  "closing_update t =
     \<lparr>update_id = ''UP1'', update_created_at = t, message = None,
      new_incident_status =
        Some \<lparr>new_status_id = ''S9'', new_status_name = ''Closed'', new_status_category = ''closed''\<rparr>,
      new_severity = None\<rparr>"

text \<open>
  Two users, three incidents led by Alice (one of them closed), two schedules of which the
  entries of the first cannot be fetched and the second has Alice on call; every
  per-incident request fails.
\<close>

definition api_example :: ApiResponses where
  "api_example =
     \<lparr>users_response = Inr [bob, alice],
      incidents_response =
        Inr [raw_incident ''1'' Live ''2024-01-14T10:00:00Z'' None,
             raw_incident ''2'' Closed ''2024-01-10T10:00:00Z'' None,
             raw_incident ''3'' Triage ''2024-01-15T10:00:00Z'' None],
      incidents_page_response = (\<lambda>flt cursor. Inr ([], None)),
      schedules_response =
        Inr [\<lparr>schedule_id = ''P'', schedule_name = ''Primary''\<rparr>,
             \<lparr>schedule_id = ''S'', schedule_name = ''Secondary''\<rparr>],
      schedule_entries_response =
        (\<lambda>sid. if sid = ''S'' then Inr [\<lparr>entry_user_email = Some ''Alice@Example.com''\<rparr>]
               else Inl (ApiRequestFailed 500)),
      incident_updates_response = (\<lambda>iid. Inl (ApiRequestFailed 404)),
      follow_ups_response = (\<lambda>iid. Inl MaxRetriesExceeded),
      actions_response = (\<lambda>iid. Inl (ThrownError ''net::ERR_FAILED'')),
      incident_attachments_response = (\<lambda>iid. Inl (ApiRequestFailed 403)),
      incident_timestamp_values_response = (\<lambda>iid. Inl (ApiRequestFailed 404))\<rparr>"

text \<open>The same API with the list of schedules refused.\<close>

definition api_schedules_forbidden :: ApiResponses where
  "api_schedules_forbidden = api_example\<lparr>schedules_response := Inl (ApiRequestFailed 403)\<rparr>"

text \<open>The same API with a timeline that holds the closing update of an incident.\<close>

definition api_with_timeline :: ApiResponses where
  "api_with_timeline =
     api_example\<lparr>incident_updates_response := (\<lambda>iid. Inr [closing_update ''2024-01-16T10:00:00Z''])\<rparr>"

text \<open>A batch processor that fails on the even items.\<close>

definition odd_times_ten :: "nat \<Rightarrow> error + nat" where
  "odd_times_ten n = (if even n then Inl (ThrownError ''even'') else Inr (n * 10))"

section \<open>Properties of the backoff policy\<close>

lemma parseInt10_empty: "parseInt10 [] = None"
  by (simp add: parseInt10_def)

text \<open>
  C7. With no retry-after hint the value before jitter is \<open>min (500 * 2 ^ a) 30000\<close>
  milliseconds for every attempt number \<open>a\<close>; for attempts 6 and 10 it is 30000.
\<close>

theorem backoff_exponential_schedule:
  "backoffBase a None = min (500 * 2 ^ a) 30000
   \<and> calculateBackoff r a None = addJitter r (min (500 * 2 ^ a) 30000)
   \<and> backoffBase 6 None = 30000
   \<and> backoffBase 10 None = 30000"
  by (simp add: backoffBase_def calculateBackoff_def cappedMs_def exponentialMs_def
      INITIAL_BACKOFF_MS_def MAX_BACKOFF_MS_def)

lemma decimalValue_foldl_nonneg:
  "0 \<le> acc \<Longrightarrow> list_all isDigit ds \<Longrightarrow>
   0 \<le> foldl (\<lambda>acc c. acc * 10 + digitValue c) acc ds"
proof (induction ds arbitrary: acc)
  case Nil
  then show ?case by simp
next
  case (Cons d ds)
  from Cons.prems have "0 \<le> digitValue d"
    by (simp add: isDigit_def digitValue_def less_eq_char_def)
  with Cons.prems have "0 \<le> acc * 10 + digitValue d" by simp
  with Cons show ?case by simp
qed

lemma parseInt10_digits:
  assumes "h \<noteq> []" and "list_all isDigit h"
  shows "parseInt10 h = Some (decimalValue h)"
proof -
  from assms obtain d ds where h: "h = d # ds" by (cases h) auto
  with assms have d: "isDigit d" by simp
  then have nd: "\<not> isWhiteSpace d" "d \<noteq> CHR ''-''" "d \<noteq> CHR ''+''"
    by (auto simp: isDigit_def isWhiteSpace_def less_eq_char_def)
  from assms h have tw: "takeWhile isDigit ds = ds"
    by (simp add: list_all_iff)
  show ?thesis
    by (simp add: parseInt10_def h d nd tw)
qed

text \<open>
  C6 (as amended). For every attempt number \<open>a\<close>: when \<open>parseInt\<close> reads an integer \<open>n\<close>
  from the hint (white space, an optional sign, decimal digits; the rest ignored), the value
  before jitter is \<open>n * 1000\<close> whatever \<open>a\<close> is, also for a negative \<open>n\<close>; when it
  reads none, the value is the exponential schedule for \<open>a\<close>. A hint made of decimal digits
  only reads as its non-negative decimal value.
\<close>

theorem backoff_retry_after_hint:
  "(parseInt10 h = Some n \<longrightarrow> backoffBase a (Some h) = n * 1000)
   \<and> (parseInt10 h = None \<longrightarrow> backoffBase a (Some h) = min (500 * 2 ^ a) 30000)
   \<and> (h \<noteq> [] \<and> list_all isDigit h \<longrightarrow>
        backoffBase a (Some h) = decimalValue h * 1000 \<and> 0 \<le> decimalValue h)"
proof (intro conjI impI)
  assume "parseInt10 h = Some n"
  then show "backoffBase a (Some h) = n * 1000"
    by (cases "h = []") (simp_all add: backoffBase_def parseInt10_empty)
next
  assume "parseInt10 h = None"
  then show "backoffBase a (Some h) = min (500 * 2 ^ a) 30000"
    by (simp add: backoffBase_def cappedMs_def exponentialMs_def INITIAL_BACKOFF_MS_def
        MAX_BACKOFF_MS_def)
next
  assume "h \<noteq> [] \<and> list_all isDigit h"
  then show "backoffBase a (Some h) = decimalValue h * 1000"
    by (simp add: backoffBase_def parseInt10_digits)
next
  assume "h \<noteq> [] \<and> list_all isDigit h"
  then show "0 \<le> decimalValue h"
    unfolding decimalValue_def by (intro decimalValue_foldl_nonneg) simp_all
qed

theorem backoff_retry_after_hint_witness:
  "parseInt10 ''60'' = Some 60 \<and> backoffBase 3 (Some ''60'') = 60000
   \<and> parseInt10 ''invalid'' = None \<and> backoffBase 1 (Some ''invalid'') = 1000
   \<and> list_all isDigit ''5'' \<and> backoffBase 0 (Some ''5'') = 5000"
proof -
  have p1: "parseInt10 ''60'' = Some 60"
    by (simp add: parseInt10_def isWhiteSpace_def isDigit_def decimalValue_def digitValue_def)
  have p2: "parseInt10 ''invalid'' = None"
    by (simp add: parseInt10_def isWhiteSpace_def isDigit_def)
  have p3: "list_all isDigit ''5''"
    by (simp add: isDigit_def)
  have v3: "decimalValue ''5'' = 5"
    by (simp add: decimalValue_def digitValue_def)
  show ?thesis
    using backoff_retry_after_hint [of "''60''" 60 3]
      backoff_retry_after_hint [of "''invalid''" 0 1]
      backoff_retry_after_hint [of "''5''" 0 0] p1 p2 p3 v3
    by simp
qed

text \<open>
  The hint \<open>-5\<close> is no non-negative integer, yet it is not ignored: the value before jitter
  is \<open>-5000\<close>, not the exponential value 1000 of attempt 1.
\<close>

theorem backoff_negative_hint_counterexample:
  "parseInt10 ''-5'' = Some (- 5)
   \<and> backoffBase 1 (Some ''-5'') = - 5000
   \<and> backoffBase 1 None = 1000
   \<and> backoffBase 1 (Some ''-5'') \<noteq> backoffBase 1 None"
  by (simp add: backoffBase_def parseInt10_def isWhiteSpace_def isDigit_def decimalValue_def
      digitValue_def cappedMs_def exponentialMs_def INITIAL_BACKOFF_MS_def MAX_BACKOFF_MS_def)

section \<open>Properties of the section reconciler\<close>

lemma splitLines_nonempty: "splitLines s \<noteq> []"
  by (induction s) (auto split: list.splits)

lemma splitLines_append_nl: "splitLines (a @ nl # b) = splitLines a @ splitLines b"
proof (induction a)
  case Nil
  show ?case by simp
next
  case (Cons c a)
  show ?case
  proof (cases "c = nl")
    case True
    with Cons show ?thesis by simp
  next
    case False
    with Cons splitLines_nonempty [of a] show ?thesis
      by (cases "splitLines a") simp_all
  qed
qed

lemma splitLines_no_nl: "nl \<notin> set l \<Longrightarrow> splitLines l = [l]"
  by (induction l) (auto split: list.splits)

lemma splitLines_lines_no_nl: "l \<in> set (splitLines s) \<Longrightarrow> nl \<notin> set l"
proof (induction s arbitrary: l)
  case Nil
  then show ?case by simp
next
  case (Cons c s)
  show ?case
  proof (cases "c = nl")
    case True
    with Cons show ?thesis by auto
  next
    case False
    obtain x xs where sp: "splitLines s = x # xs"
      using splitLines_nonempty [of s] by (cases "splitLines s") auto
    with Cons.prems False have "l = c # x \<or> l \<in> set xs" by simp
    then show ?thesis
    proof
      assume "l = c # x"
      moreover have "nl \<notin> set x" using Cons.IH [of x] sp by simp
      ultimately show ?thesis using False by auto
    next
      assume "l \<in> set xs"
      then show ?thesis using Cons.IH [of l] sp by simp
    qed
  qed
qed

lemma splitLines_joinLines:
  "ls \<noteq> [] \<Longrightarrow> (\<And>l. l \<in> set ls \<Longrightarrow> nl \<notin> set l) \<Longrightarrow> splitLines (joinLines ls) = ls"
proof (induction ls rule: joinLines.induct)
  case 1
  then show ?case by simp
next
  case (2 l)
  then show ?case by (simp add: splitLines_no_nl)
next
  case (3 l v va)
  have "splitLines (joinLines (l # v # va)) = splitLines l @ splitLines (joinLines (v # va))"
    by (simp add: splitLines_append_nl)
  also have "splitLines l = [l]" using 3 by (simp add: splitLines_no_nl)
  also have "splitLines (joinLines (v # va)) = v # va" using 3 by simp
  finally show ?case by simp
qed

lemma joinLines_splitLines: "joinLines (splitLines s) = s"
proof (induction s)
  case Nil
  show ?case by simp
next
  case (Cons c s)
  obtain x xs where sp: "splitLines s = x # xs"
    using splitLines_nonempty [of s] by (cases "splitLines s") auto
  show ?case
  proof (cases "c = nl")
    case True
    with Cons sp show ?thesis by simp
  next
    case False
    with Cons sp show ?thesis by (cases xs) auto
  qed
qed

lemma joinLines_empty_iff: "joinLines ls = [] \<longleftrightarrow> ls = [] \<or> ls = [[]]"
  by (induction ls rule: joinLines.induct) auto

lemma splitLines_joinLines_sub:
  assumes "set ls \<subseteq> set (splitLines s)"
  shows "splitLines (joinLines ls) = (if ls = [] then [[]] else ls)"
  using assms splitLines_joinLines [of ls] splitLines_lines_no_nl [of _ s] by auto

text \<open>The lines of the text written for a heading that is in the index.\<close>

lemma updateNoteContent_lines:
  assumes "existingHeading hdr hs = Some eh"
  shows "splitLines (updateNoteContent hdr hs content body) =
     (if beforeSection eh (splitLines content) = [] then [] else take (line eh) (splitLines content))
     @ splitLines body
     @ (if afterSection hs eh (splitLines content) = [] then []
        else drop (endLineNum hs eh (splitLines content)) (splitLines content))"
proof -
  let ?ls = "splitLines content"
  let ?B = "take (line eh) ?ls"
  let ?A = "drop (endLineNum hs eh ?ls) ?ls"
  have B: "splitLines (joinLines ?B) = ?B" if "joinLines ?B \<noteq> []"
  proof -
    from that have "?B \<noteq> []" by (cases "?B = []") simp_all
    moreover have "set ?B \<subseteq> set ?ls" by (rule set_take_subset)
    ultimately show ?thesis using splitLines_joinLines_sub [of ?B content] by simp
  qed
  have A: "splitLines (joinLines ?A) = ?A" if "joinLines ?A \<noteq> []"
  proof -
    from that have "?A \<noteq> []" by (cases "?A = []") simp_all
    moreover have "set ?A \<subseteq> set ?ls" by (rule set_drop_subset)
    ultimately show ?thesis using splitLines_joinLines_sub [of ?A content] by simp
  qed
  show ?thesis
    using assms A B
    by (simp add: updateNoteContent_def Let_def beforeSection_def afterSection_def
        splitLines_append_nl)
qed

lemma joinLines_not_single_empty:
  "ls \<noteq> [[]] \<Longrightarrow> (joinLines ls = [] \<longleftrightarrow> ls = [])"
  by (simp add: joinLines_empty_iff)

text \<open>
  C1 (as amended). When the heading is in the index, the lines before the heading are not
  just one empty line and the lines from the end of the section on are not just one empty
  line, the text written has exactly the lines before the heading, then the lines of the
  new body, then the lines from the end of the section on (none when no later heading has
  a level at most the heading's): the frame is kept line for line and the old section is
  gone.
\<close>

theorem section_replace_frame:
  assumes "existingHeading hdr hs = Some eh"
    and "\<not> (body = [] \<and> omit)"
    and "take (line eh) (splitLines content) \<noteq> [[]]"
    and "drop (endLineNum hs eh (splitLines content)) (splitLines content) \<noteq> [[]]"
  shows "\<exists>r. updateDailyNote hdr omit hs content body = Some r
           \<and> splitLines r =
               take (line eh) (splitLines content) @ splitLines body
               @ drop (endLineNum hs eh (splitLines content)) (splitLines content)"
proof -
  have "splitLines (updateNoteContent hdr hs content body) =
          take (line eh) (splitLines content) @ splitLines body
          @ drop (endLineNum hs eh (splitLines content)) (splitLines content)"
    using assms(3,4) updateNoteContent_lines [OF assms(1), of content body]
    by (simp add: beforeSection_def afterSection_def joinLines_not_single_empty)
  moreover have "updateDailyNote hdr omit hs content body
      = Some (updateNoteContent hdr hs content body)"
    using assms(2) by (auto simp: updateDailyNote_def)
  ultimately show ?thesis by simp
qed

theorem section_replace_frame_witness:
  "existingHeading ''## Incidents'' index_mid = Some \<lparr>heading = ''Incidents'', level = 2, line = 2\<rparr>
   \<and> take 2 (splitLines note_mid) = [''# Log'', ''intro'']
   \<and> drop 5 (splitLines note_mid) = [''## Next'', ''tail'']
   \<and> (\<exists>r. updateDailyNote ''## Incidents'' False index_mid note_mid body_new = Some r
          \<and> splitLines r = [''# Log'', ''intro'', ''## Incidents'', ''new'', ''## Next'', ''tail''])"
proof -
  let ?eh = "\<lparr>heading = ''Incidents'', level = 2, line = 2\<rparr>"
  have h1: "existingHeading ''## Incidents'' index_mid = Some ?eh"
    by code_simp
  have h2: "\<not> (body_new = [] \<and> False)" by simp
  have e: "endLineNum index_mid ?eh (splitLines note_mid) = 5"
    by code_simp
  have t: "take 2 (splitLines note_mid) = [''# Log'', ''intro'']"
    by code_simp
  have d: "drop 5 (splitLines note_mid) = [''## Next'', ''tail'']"
    by code_simp
  have b: "splitLines body_new = [''## Incidents'', ''new'']"
    by code_simp
  have h3: "take (line ?eh) (splitLines note_mid) \<noteq> [[]]"
    using t by simp
  have h4: "drop (endLineNum index_mid ?eh (splitLines note_mid)) (splitLines note_mid) \<noteq> [[]]"
    using d e by simp
  from section_replace_frame [OF h1 h2 h3 h4]
  show ?thesis using h1 t d e b by simp
qed

text \<open>
  A note that starts with an empty line: the text before the heading is empty, no newline
  is put before the body, and the empty first line is not in the text written.
\<close>

theorem section_replace_frame_counterexample:
  "existingHeading ''## Incidents'' index_blank_first
     = Some \<lparr>heading = ''Incidents'', level = 2, line = 1\<rparr>
   \<and> take 1 (splitLines note_blank_first) = ['''']
   \<and> map_option splitLines (updateDailyNote ''## Incidents'' False index_blank_first note_blank_first body_new)
     = Some [''## Incidents'', ''new'']
   \<and> map_option splitLines (updateDailyNote ''## Incidents'' False index_blank_first note_blank_first body_new)
     \<noteq> Some (take 1 (splitLines note_blank_first) @ splitLines body_new
          @ drop (endLineNum index_blank_first \<lparr>heading = ''Incidents'', level = 2, line = 1\<rparr>
               (splitLines note_blank_first)) (splitLines note_blank_first))"
  by code_simp

text \<open>
  C3 (as amended). When the heading is in the index, the text written is the text before
  the section, the body and the text after the section, with exactly one newline character
  (a line break, not a blank line) between the body and a side that is not empty and
  nothing next to a side that is empty; so its lines are the lines of the text before, of
  the body and of the text after, with no line added or merged between them.
\<close>

theorem section_replace_separator:
  assumes "existingHeading hdr hs = Some eh"
    and "\<not> (body = [] \<and> omit)"
  shows "updateDailyNote hdr omit hs content body =
           Some ((if beforeSection eh (splitLines content) = [] then []
                  else beforeSection eh (splitLines content) @ [nl])
                 @ body
                 @ (if afterSection hs eh (splitLines content) = [] then []
                    else nl # afterSection hs eh (splitLines content)))
         \<and> map_option splitLines (updateDailyNote hdr omit hs content body) =
           Some ((if beforeSection eh (splitLines content) = [] then []
                  else splitLines (beforeSection eh (splitLines content)))
                 @ splitLines body
                 @ (if afterSection hs eh (splitLines content) = [] then []
                    else splitLines (afterSection hs eh (splitLines content))))"
proof -
  have u: "updateDailyNote hdr omit hs content body
      = Some (updateNoteContent hdr hs content body)"
    using assms(2) by (auto simp: updateDailyNote_def)
  have "updateNoteContent hdr hs content body =
           (if beforeSection eh (splitLines content) = [] then []
            else beforeSection eh (splitLines content) @ [nl])
           @ body
           @ (if afterSection hs eh (splitLines content) = [] then []
              else nl # afterSection hs eh (splitLines content))"
    using assms(1) by (simp add: updateNoteContent_def Let_def)
  moreover from this have "splitLines (updateNoteContent hdr hs content body) =
           (if beforeSection eh (splitLines content) = [] then []
            else splitLines (beforeSection eh (splitLines content)))
           @ splitLines body
           @ (if afterSection hs eh (splitLines content) = [] then []
              else splitLines (afterSection hs eh (splitLines content)))"
    by (simp add: splitLines_append_nl)
  ultimately show ?thesis using u by simp
qed

theorem section_replace_separator_witness:
  "existingHeading ''## Incidents'' index_mid = Some \<lparr>heading = ''Incidents'', level = 2, line = 2\<rparr>
   \<and> updateDailyNote ''## Incidents'' False index_mid note_mid body_new
       = Some (joinLines [''# Log'', ''intro''] @ [nl] @ body_new @ [nl] @ joinLines [''## Next'', ''tail''])"
proof -
  let ?eh = "\<lparr>heading = ''Incidents'', level = 2, line = 2\<rparr>"
  have h1: "existingHeading ''## Incidents'' index_mid = Some ?eh"
    by code_simp
  have h2: "\<not> (body_new = [] \<and> False)" by simp
  have b: "beforeSection ?eh (splitLines note_mid) = joinLines [''# Log'', ''intro'']"
    by code_simp
  have a: "afterSection index_mid ?eh (splitLines note_mid) = joinLines [''## Next'', ''tail'']"
    by code_simp
  have ne: "joinLines [''# Log'', ''intro''] \<noteq> []" "joinLines [''## Next'', ''tail''] \<noteq> []"
    by simp_all
  from section_replace_separator [OF h1 h2, of note_mid]
  show ?thesis using h1 a b ne by simp
qed

text \<open>
  A note with blank lines around the section: both sides are non-empty, and in the text
  written the next heading follows the last line of the body with no blank line between.
\<close>

theorem section_replace_separator_counterexample:
  "beforeSection \<lparr>heading = ''Incidents'', level = 2, line = 2\<rparr> (splitLines note_spaced) \<noteq> []
   \<and> afterSection index_spaced \<lparr>heading = ''Incidents'', level = 2, line = 2\<rparr> (splitLines note_spaced) \<noteq> []
   \<and> existingHeading ''## Incidents'' index_spaced = Some \<lparr>heading = ''Incidents'', level = 2, line = 2\<rparr>
   \<and> map_option splitLines (updateDailyNote ''## Incidents'' False index_spaced note_spaced body_new)
       = Some [''intro'', '''', ''## Incidents'', ''new'', ''## Next'', ''tail'']"
  by code_simp

lemma trim_infix: "\<exists>p q. s = p @ trim s @ q"
proof -
  let ?t = "dropWhile isWhiteSpace s"
  have 1: "s = takeWhile isWhiteSpace s @ ?t" by simp
  have "rev (takeWhile isWhiteSpace (rev ?t) @ dropWhile isWhiteSpace (rev ?t)) = ?t"
    by (simp only: takeWhile_dropWhile_id rev_rev_ident)
  then have 2: "?t = trim s @ rev (takeWhile isWhiteSpace (rev ?t))"
    by (simp only: rev_append trim_def)
  from 1 2 have "s = takeWhile isWhiteSpace s @ trim s @ rev (takeWhile isWhiteSpace (rev ?t))"
    by simp
  then show ?thesis by blast
qed

lemma trim_ends:
  "trim s = [] \<or> (\<not> isWhiteSpace (hd (trim s)) \<and> \<not> isWhiteSpace (last (trim s)))"
proof (cases "trim s = []")
  case True
  then show ?thesis by simp
next
  case False
  let ?t = "dropWhile isWhiteSpace s"
  let ?u = "dropWhile isWhiteSpace (rev ?t)"
  have r: "trim s = rev ?u" by (simp add: trim_def)
  with False have u: "?u \<noteq> []" by simp
  then have "\<not> isWhiteSpace (hd ?u)" by (rule hd_dropWhile)
  then have l: "\<not> isWhiteSpace (last (trim s))" using r u by (simp add: last_rev)
  have t: "?t \<noteq> []"
  proof
    assume e: "?t = []"
    have "?u = []" unfolding e by simp
    with u show False by simp
  qed
  then have ht: "\<not> isWhiteSpace (hd ?t)" by (rule hd_dropWhile)
  have "rev ?t = takeWhile isWhiteSpace (rev ?t) @ ?u" by simp
  then have "last (rev ?t) = last ?u" using u by (metis last_appendR)
  then have "hd ?t = last ?u" using t by (simp add: last_rev)
  then have "hd (trim s) = hd ?t" using r u by (simp add: hd_rev)
  with ht l show ?thesis by simp
qed

lemma runLen_Cons: "runLen (c # cs) = (if c = nl then Suc (runLen cs) else 0)"
  by (simp add: runLen_def)

lemma runLen_Nil: "runLen [] = 0"
  by (simp add: runLen_def)

lemma runLen_dropWhile: "runLen (dropWhile (\<lambda>c. c = nl) s) = 0"
proof (cases "dropWhile (\<lambda>c. c = nl) s")
  case Nil
  show ?thesis unfolding Nil by (simp add: runLen_def)
next
  case (Cons a list)
  have "dropWhile (\<lambda>c. c = nl) s \<noteq> []" unfolding Cons by simp
  then have "hd (dropWhile (\<lambda>c. c = nl) s) \<noteq> nl" by (rule hd_dropWhile)
  then have "a \<noteq> nl" unfolding Cons by simp
  then show ?thesis unfolding Cons by (simp add: runLen_Cons)
qed

lemma collapseNewlines_runs:
  "\<not> tripleNl (collapseNewlines s) \<and> runLen (collapseNewlines s) = min 2 (runLen s)"
proof (induction s rule: collapseNewlines.induct)
  case (1 s)
  show ?case
  proof (cases "s = []")
    case True
    then show ?thesis by (simp add: collapseNewlines.simps runLen_Nil)
  next
    case ne: False
    show ?thesis
    proof (cases "3 \<le> runLen s")
      case True
      let ?d = "dropWhile (\<lambda>c. c = nl) s"
      from True have r3: "3 \<le> length (takeWhile (\<lambda>c. c = nl) s)"
        by (simp add: runLen_def)
      from r3 ne have c: "collapseNewlines s = nl # nl # collapseNewlines ?d"
        by (subst collapseNewlines.simps) simp
      from "1.IH"(1) [OF ne r3]
      have ih: "\<not> tripleNl (collapseNewlines ?d)" "runLen (collapseNewlines ?d) = 0"
        by (simp_all add: runLen_dropWhile)
      from c ih True show ?thesis by (simp add: runLen_Cons)
    next
      case False
      obtain c s' where s: "s = c # s'" using ne by (cases s) auto
      from False have r3: "\<not> 3 \<le> length (takeWhile (\<lambda>c. c = nl) s)"
        by (simp add: runLen_def)
      have tl: "tl s = s'" and hd: "hd s = c" by (simp_all add: s)
      from r3 ne have cs: "collapseNewlines s = c # collapseNewlines s'"
        by (subst collapseNewlines.simps) (simp add: tl hd)
      from "1.IH"(2) [OF ne r3]
      have ih: "\<not> tripleNl (collapseNewlines s')" "runLen (collapseNewlines s') = min 2 (runLen s')"
        by (simp_all add: tl)
      from cs have cs': "collapseNewlines (c # s') = c # collapseNewlines s'"
        by (simp add: s)
      from False ih show ?thesis unfolding s by (auto simp: runLen_Cons cs')
    qed
  qed
qed

lemma tripleNl_append: "tripleNl b \<Longrightarrow> tripleNl (a @ b)"
  by (induction a) auto

lemma tripleNl_infix: "tripleNl (u @ nl # nl # nl # v)"
  by (rule tripleNl_append) (simp add: runLen_Cons)

lemma tripleNl_prefix: "tripleNl a \<Longrightarrow> tripleNl (a @ b)"
proof (induction a)
  case Nil
  then show ?case by simp
next
  case (Cons c a)
  have "runLen a \<le> runLen (a @ b)"
    by (induction a) (simp_all add: runLen_Cons runLen_Nil)
  with Cons show ?case by auto
qed

lemma trim_collapse_no_triple:
  "trim (collapseNewlines s) \<noteq> u @ nl # nl # nl # v"
proof
  assume a: "trim (collapseNewlines s) = u @ nl # nl # nl # v"
  obtain p q where "collapseNewlines s = p @ trim (collapseNewlines s) @ q"
    using trim_infix by blast
  with a have "collapseNewlines s = (p @ u @ nl # nl # nl # v) @ q" by simp
  moreover have "tripleNl ((p @ u @ nl # nl # nl # v) @ q)"
    using tripleNl_infix [of "p @ u" v] by (intro tripleNl_prefix [of _ q]) simp
  ultimately show False using collapseNewlines_runs [of s] by simp
qed

text \<open>
  C2 (as amended). When the heading is in the index and no line lies before the heading or
  none lies from the end of the section on, the text written by the removal is made of the
  lines outside the section only, joined by newlines, in which every run of three or more
  newline characters (two or more blank lines in a row) is replaced by two newline
  characters (one blank line) and from which white space is trimmed at both ends: it has
  no three newlines in a row and neither starts nor ends with white space.
\<close>

theorem section_remove_outside_lines:
  assumes "existingHeading hdr hs = Some eh"
    and "take (line eh) (splitLines content) = []
         \<or> drop (endLineNum hs eh (splitLines content)) (splitLines content) = []"
  shows "\<exists>r. removeSectionFromNote hdr hs content = Some r
           \<and> updateDailyNote hdr True hs content [] = Some r
           \<and> r = trim (collapseNewlines (joinLines
                 (take (line eh) (splitLines content)
                  @ drop (endLineNum hs eh (splitLines content)) (splitLines content))))
           \<and> (\<forall>u v. r \<noteq> u @ nl # nl # nl # v)
           \<and> (r = [] \<or> (\<not> isWhiteSpace (hd r) \<and> \<not> isWhiteSpace (last r)))"
proof -
  let ?B = "take (line eh) (splitLines content)"
  let ?A = "drop (endLineNum hs eh (splitLines content)) (splitLines content)"
  let ?r = "trim (collapseNewlines (joinLines (?B @ ?A)))"
  from assms(2) have j: "joinLines ?B @ joinLines ?A = joinLines (?B @ ?A)"
  proof
    assume e: "?B = []"
    show ?thesis unfolding e by simp
  next
    assume e: "?A = []"
    show ?thesis unfolding e by simp
  qed
  have 1: "removeSectionFromNote hdr hs content = Some ?r"
    using assms(1) j
    by (simp add: removeSectionFromNote_def Let_def beforeSection_def afterSection_def)
  then have 2: "updateDailyNote hdr True hs content [] = Some ?r"
    by (simp add: updateDailyNote_def)
  have 3: "\<forall>u v. ?r \<noteq> u @ nl # nl # nl # v"
    by (simp add: trim_collapse_no_triple)
  have 4: "?r = [] \<or> (\<not> isWhiteSpace (hd ?r) \<and> \<not> isWhiteSpace (last ?r))"
    by (rule trim_ends)
  from 1 2 3 4 show ?thesis by blast
qed

theorem section_remove_outside_lines_witness:
  "existingHeading ''## Incidents'' index_last = Some \<lparr>heading = ''Incidents'', level = 2, line = 5\<rparr>
   \<and> drop (endLineNum index_last \<lparr>heading = ''Incidents'', level = 2, line = 5\<rparr> (splitLines note_last))
        (splitLines note_last) = []
   \<and> (\<exists>r. removeSectionFromNote ''## Incidents'' index_last note_last = Some r
          \<and> r = joinLines [''code'', ''a'', '''', ''b''])"
proof -
  let ?eh = "\<lparr>heading = ''Incidents'', level = 2, line = 5\<rparr>"
  have h1: "existingHeading ''## Incidents'' index_last = Some ?eh"
    by code_simp
  have d: "drop (endLineNum index_last ?eh (splitLines note_last)) (splitLines note_last) = []"
    by code_simp
  then have h2: "take (line ?eh) (splitLines note_last) = []
      \<or> drop (endLineNum index_last ?eh (splitLines note_last)) (splitLines note_last) = []"
    by (rule disjI2)
  have v: "trim (collapseNewlines (joinLines (take (line ?eh) (splitLines note_last)
      @ drop (endLineNum index_last ?eh (splitLines note_last)) (splitLines note_last))))
      = joinLines [''code'', ''a'', '''', ''b'']"
    by code_simp
  from section_remove_outside_lines [OF h1 h2]
  show ?thesis using h1 d v by auto
qed

text \<open>
  Removing the last section of a note whose remaining lines are an indented line, a line,
  two blank lines and a line: the two blank lines become one although they are fewer than
  three, and the indentation of the first line is trimmed.
\<close>

theorem section_remove_counterexample:
  "take 5 (splitLines note_last)
       @ drop (endLineNum index_last \<lparr>heading = ''Incidents'', level = 2, line = 5\<rparr> (splitLines note_last))
           (splitLines note_last)
     = [''  code'', ''a'', '''', '''', ''b'']
   \<and> removeSectionFromNote ''## Incidents'' index_last note_last
     = Some (joinLines [''code'', ''a'', '''', ''b''])
   \<and> removeSectionFromNote ''## Incidents'' index_last note_last
     \<noteq> Some (joinLines [''  code'', ''a'', '''', '''', ''b''])"
  by code_simp

text \<open>
  With lines on both sides of the section, the text before and the text after are
  concatenated with no newline between them: the last line before the heading and the
  next heading end up on one line.
\<close>

lemma section_remove_seam_example:
  "removeSectionFromNote ''## Incidents'' index_mid note_mid
     = Some (joinLines [''# Log'', ''intro## Next'', ''tail''])"
  by code_simp

section \<open>Properties of the date-window filter\<close>

lemma activeOn_predicate:
  "(let createdAt = parseDate (fi_created_at inc);
        closedAt = (case fi_closed_at inc of
                      None \<Rightarrow> None
                    | Some s \<Rightarrow> if s \<noteq> [] then Some (parseDate s) else None);
        createdBeforeOrOn = numLe createdAt (Some dayEnd);
        stillOpenOnDate = (case closedAt of
                             None \<Rightarrow> True
                           | Some c \<Rightarrow> numLe (Some dayStart) c)
    in createdBeforeOrOn \<and> stillOpenOnDate) = isActiveOn parseDate dayStart dayEnd inc"
  by (simp add: isActiveOn_def numLe_def Let_def split: option.splits)

lemma filterIncidentsForDate_eq:
  assumes "startOfDay d = Some dayStart" and "endOfDay d = Some dayEnd"
  shows "filterIncidentsForDate parseDate startOfDay endOfDay incs (Some d)
     = filter (isActiveOn parseDate dayStart dayEnd) incs"
  unfolding filterIncidentsForDate_def
  by (simp add: assms setHoursOn_def activeOn_predicate [unfolded Let_def] Let_def)

text \<open>
  C8. Let \<open>dayStart\<close> and \<open>dayEnd\<close> be the instants that \<open>setHours(0, 0, 0, 0)\<close> and
  \<open>setHours(23, 59, 59, 999)\<close> give for the target date \<open>d\<close> in the local time of the
  host: the start (00:00:00.000) and the end (23:59:59.999) of the local calendar day of
  \<open>d\<close>, however many hours that day has. Then \<open>filterIncidentsForDate\<close> keeps, in order,
  exactly the incidents whose creation instant is at or before \<open>dayEnd\<close> and that have no
  close time or a close instant at or after \<open>dayStart\<close>. An incident closed exactly at
  \<open>dayStart\<close> is kept, and so is one created at 23:59:59 of the day, 999 ms before
  \<open>dayEnd\<close>.
\<close>

theorem date_window_filter:
  "(startOfDay d = Some dayStart \<and> endOfDay d = Some dayEnd
      \<longrightarrow> filterIncidentsForDate parseDate startOfDay endOfDay incs (Some d)
            = filter (isActiveOn parseDate dayStart dayEnd) incs
          \<and> (inc \<in> set (filterIncidentsForDate parseDate startOfDay endOfDay incs (Some d))
               \<longleftrightarrow> inc \<in> set incs \<and> isActiveOn parseDate dayStart dayEnd inc))
   \<and> (startOfDay d = Some dayStart \<and> endOfDay d = Some dayEnd
        \<and> parseDate (fi_created_at inc) = Some c \<and> c \<le> dayEnd
        \<and> fi_closed_at inc = Some s \<and> parseDate s = Some dayStart
        \<longrightarrow> filterIncidentsForDate parseDate startOfDay endOfDay [inc] (Some d) = [inc])
   \<and> (startOfDay d = Some dayStart \<and> endOfDay d = Some dayEnd
        \<and> parseDate (fi_created_at inc) = Some (dayEnd - 999)
        \<and> (fi_closed_at inc = None
            \<or> (fi_closed_at inc = Some s \<and> parseDate s = Some c \<and> dayStart \<le> c))
        \<longrightarrow> filterIncidentsForDate parseDate startOfDay endOfDay [inc] (Some d) = [inc])"
proof (intro conjI impI)
  assume a: "startOfDay d = Some dayStart \<and> endOfDay d = Some dayEnd"
  then have s: "startOfDay d = Some dayStart" and e: "endOfDay d = Some dayEnd" by blast+
  have eq: "filterIncidentsForDate parseDate startOfDay endOfDay xs (Some d)
      = filter (isActiveOn parseDate dayStart dayEnd) xs" for xs
    using s e by (rule filterIncidentsForDate_eq)
  show "filterIncidentsForDate parseDate startOfDay endOfDay incs (Some d)
      = filter (isActiveOn parseDate dayStart dayEnd) incs"
    by (rule eq)
  show "inc \<in> set (filterIncidentsForDate parseDate startOfDay endOfDay incs (Some d))
      \<longleftrightarrow> inc \<in> set incs \<and> isActiveOn parseDate dayStart dayEnd inc"
    by (simp add: eq)
next
  assume a: "startOfDay d = Some dayStart \<and> endOfDay d = Some dayEnd
        \<and> parseDate (fi_created_at inc) = Some c \<and> c \<le> dayEnd
        \<and> fi_closed_at inc = Some s \<and> parseDate s = Some dayStart"
  then have s: "startOfDay d = Some dayStart" and e: "endOfDay d = Some dayEnd" by blast+
  have eq: "filterIncidentsForDate parseDate startOfDay endOfDay xs (Some d)
      = filter (isActiveOn parseDate dayStart dayEnd) xs" for xs
    using s e by (rule filterIncidentsForDate_eq)
  from a have "isActiveOn parseDate dayStart dayEnd inc" by (simp add: isActiveOn_def)
  then show "filterIncidentsForDate parseDate startOfDay endOfDay [inc] (Some d) = [inc]"
    by (simp add: eq)
next
  assume a: "startOfDay d = Some dayStart \<and> endOfDay d = Some dayEnd
        \<and> parseDate (fi_created_at inc) = Some (dayEnd - 999)
        \<and> (fi_closed_at inc = None
            \<or> (fi_closed_at inc = Some s \<and> parseDate s = Some c \<and> dayStart \<le> c))"
  then have s: "startOfDay d = Some dayStart" and e: "endOfDay d = Some dayEnd" by blast+
  have eq: "filterIncidentsForDate parseDate startOfDay endOfDay xs (Some d)
      = filter (isActiveOn parseDate dayStart dayEnd) xs" for xs
    using s e by (rule filterIncidentsForDate_eq)
  from a have "isActiveOn parseDate dayStart dayEnd inc"
    by (auto simp: isActiveOn_def)
  then show "filterIncidentsForDate parseDate startOfDay endOfDay [inc] (Some d) = [inc]"
    by (simp add: eq)
qed

theorem date_window_filter_witness:
  "filterIncidentsForDate example_parseDate utc_startOfDay utc_endOfDay
        [inc_closed_at_midnight, inc_created_later, inc_created_at_day_end, inc_closed_before]
        (Some 1705312800000)
       = [inc_closed_at_midnight, inc_created_at_day_end]
   \<and> filterIncidentsForDate example_parseDate utc_startOfDay utc_endOfDay
        [inc_closed_at_midnight] (Some 1705312800000)
       = [inc_closed_at_midnight]
   \<and> filterIncidentsForDate example_parseDate utc_startOfDay utc_endOfDay
        [inc_created_at_day_end] (Some 1705312800000)
       = [inc_created_at_day_end]
   \<and> filterIncidentsForDate example_parseDate ny_startOfDay ny_endOfDay
        [inc_before_short_day_end, inc_after_short_day_end] (Some 1710086400000)
       = [inc_before_short_day_end]"
proof -
  have us: "utc_startOfDay 1705312800000 = Some 1705276800000"
    by (simp add: utc_startOfDay_def)
  have ue: "utc_endOfDay 1705312800000 = Some 1705363199999"
    by (simp add: utc_endOfDay_def)
  have ns: "ny_startOfDay 1710086400000 = Some 1710046800000"
    by (simp add: ny_startOfDay_def)
  have ne: "ny_endOfDay 1710086400000 = Some 1710129599999"
    by (simp add: ny_endOfDay_def)
  have a1: "example_parseDate (fi_created_at inc_closed_at_midnight) = Some 1704880800000"
    by (simp add: inc_closed_at_midnight_def example_incident_def example_parseDate_def)
  have a3: "fi_closed_at inc_closed_at_midnight = Some ''2024-01-15T00:00:00Z''"
    by (simp add: inc_closed_at_midnight_def example_incident_def)
  have a4: "example_parseDate ''2024-01-15T00:00:00Z'' = Some 1705276800000"
    by (simp add: example_parseDate_def)
  have b1: "example_parseDate (fi_created_at inc_created_at_day_end)
       = Some (1705363199999 - 999)"
    by (simp add: inc_created_at_day_end_def example_incident_def example_parseDate_def)
  have b2: "fi_closed_at inc_created_at_day_end = Some ''2024-01-16T10:00:00Z''"
    by (simp add: inc_created_at_day_end_def example_incident_def)
  have b3: "example_parseDate ''2024-01-16T10:00:00Z'' = Some 1705399200000"
    by (simp add: example_parseDate_def)
  have act:
    "isActiveOn example_parseDate 1705276800000 1705363199999 inc_closed_at_midnight"
    "isActiveOn example_parseDate 1705276800000 1705363199999 inc_created_at_day_end"
    "\<not> isActiveOn example_parseDate 1705276800000 1705363199999 inc_created_later"
    "\<not> isActiveOn example_parseDate 1705276800000 1705363199999 inc_closed_before"
    "isActiveOn example_parseDate 1710046800000 1710129599999 inc_before_short_day_end"
    "\<not> isActiveOn example_parseDate 1710046800000 1710129599999 inc_after_short_day_end"
    by (simp_all add: isActiveOn_def inc_closed_at_midnight_def inc_created_at_day_end_def
        inc_created_later_def inc_closed_before_def inc_before_short_day_end_def
        inc_after_short_day_end_def example_incident_def example_parseDate_def)
  have w1: "filterIncidentsForDate example_parseDate utc_startOfDay utc_endOfDay
        [inc_closed_at_midnight, inc_created_later, inc_created_at_day_end, inc_closed_before]
        (Some 1705312800000)
       = [inc_closed_at_midnight, inc_created_at_day_end]"
    using date_window_filter [where startOfDay = utc_startOfDay and endOfDay = utc_endOfDay
        and d = 1705312800000 and dayStart = 1705276800000 and dayEnd = 1705363199999
        and parseDate = example_parseDate
        and incs = "[inc_closed_at_midnight, inc_created_later, inc_created_at_day_end,
                     inc_closed_before]"
        and inc = inc_closed_at_midnight and c = 0 and s = "[]"] us ue act
    by simp
  have w2: "filterIncidentsForDate example_parseDate utc_startOfDay utc_endOfDay
        [inc_closed_at_midnight] (Some 1705312800000) = [inc_closed_at_midnight]"
    using date_window_filter [where startOfDay = utc_startOfDay and endOfDay = utc_endOfDay
        and d = 1705312800000 and dayStart = 1705276800000 and dayEnd = 1705363199999
        and parseDate = example_parseDate and incs = "[]"
        and inc = inc_closed_at_midnight and c = 1704880800000
        and s = "''2024-01-15T00:00:00Z''"] us ue a1 a3 a4
    by simp
  have w3: "filterIncidentsForDate example_parseDate utc_startOfDay utc_endOfDay
        [inc_created_at_day_end] (Some 1705312800000) = [inc_created_at_day_end]"
    using date_window_filter [where startOfDay = utc_startOfDay and endOfDay = utc_endOfDay
        and d = 1705312800000 and dayStart = 1705276800000 and dayEnd = 1705363199999
        and parseDate = example_parseDate and incs = "[]"
        and inc = inc_created_at_day_end and c = 1705399200000
        and s = "''2024-01-16T10:00:00Z''"] us ue b1 b2 b3
    by simp
  have w4: "filterIncidentsForDate example_parseDate ny_startOfDay ny_endOfDay
        [inc_before_short_day_end, inc_after_short_day_end] (Some 1710086400000)
       = [inc_before_short_day_end]"
    using date_window_filter [where startOfDay = ny_startOfDay and endOfDay = ny_endOfDay
        and d = 1710086400000 and dayStart = 1710046800000 and dayEnd = 1710129599999
        and parseDate = example_parseDate
        and incs = "[inc_before_short_day_end, inc_after_short_day_end]"
        and inc = inc_before_short_day_end and c = 0 and s = "[]"] ns ne act
    by simp
  from w1 w2 w3 w4 show ?thesis by simp
qed

section \<open>Properties of the request loop\<close>

lemma requestFrom_retryable:
  assumes "attempt < MAX_RETRIES" and "retryable (outcomes attempt)"
  shows "requestFrom rnd outcomes attempt le =
     afterDelay (backoffAt rnd outcomes attempt)
       (requestFrom rnd outcomes (Suc attempt) (lastErrorStep outcomes le attempt))"
proof (cases "outcomes attempt")
  case (Response status retryAfter json)
  with assms show ?thesis
    by (subst requestFrom.simps) (auto simp: retryable_def backoffAt_def lastErrorStep_def)
next
  case (Throws msg)
  with assms show ?thesis
    by (subst requestFrom.simps) (auto simp: retryable_def backoffAt_def lastErrorStep_def)
qed

lemma requestFrom_retries:
  "a + n \<le> MAX_RETRIES \<Longrightarrow> (\<And>i. a \<le> i \<Longrightarrow> i < a + n \<Longrightarrow> retryable (outcomes i)) \<Longrightarrow>
   requestFrom rnd outcomes a le =
     (fst (requestFrom rnd outcomes (a + n) (foldl (lastErrorStep outcomes) le [a..<a + n])),
      map (backoffAt rnd outcomes) [a..<a + n]
        @ snd (requestFrom rnd outcomes (a + n) (foldl (lastErrorStep outcomes) le [a..<a + n])))"
proof (induction n arbitrary: a le)
  case 0
  then show ?case by simp
next
  case (Suc n)
  have r: "retryable (outcomes a)" using Suc.prems(2) [of a] by simp
  have lt: "a < MAX_RETRIES" using Suc.prems(1) by simp
  have ih: "requestFrom rnd outcomes (Suc a) (lastErrorStep outcomes le a) =
     (fst (requestFrom rnd outcomes (Suc a + n) (foldl (lastErrorStep outcomes) (lastErrorStep outcomes le a) [Suc a..<Suc a + n])),
      map (backoffAt rnd outcomes) [Suc a..<Suc a + n]
        @ snd (requestFrom rnd outcomes (Suc a + n) (foldl (lastErrorStep outcomes) (lastErrorStep outcomes le a) [Suc a..<Suc a + n])))"
    using Suc.prems by (intro Suc.IH) simp_all
  have u: "[a..<a + Suc n] = a # [Suc a..<Suc a + n]"
    by (simp add: upt_conv_Cons)
  have st: "requestFrom rnd outcomes a le =
     afterDelay (backoffAt rnd outcomes a)
       (requestFrom rnd outcomes (Suc a) (lastErrorStep outcomes le a))"
    using lt r by (rule requestFrom_retryable)
  show ?case
    unfolding st u
    by (subst ih) (simp add: afterDelay_def)
qed

lemma foldl_lastErrorStep:
  "foldl (lastErrorStep outcomes) None [0..<n] = map_option ThrownError (lastThrown outcomes n)"
  by (induction n) (simp_all add: lastErrorStep_def split: attempt_outcome.splits)

lemma requestFrom_exhausted:
  "requestFrom rnd outcomes MAX_RETRIES le =
     (Inl (case le of Some e \<Rightarrow> e | None \<Rightarrow> MaxRetriesExceeded), [])"
  by (subst requestFrom.simps) simp

lemma requestFrom_length:
  "length (snd (requestFrom rnd outcomes a le)) \<le> MAX_RETRIES - a"
proof (induction rnd outcomes a le rule: requestFrom.induct)
  case (1 rnd outcomes attempt lastError)
  show ?case
  proof (cases "attempt < MAX_RETRIES")
    case False
    then show ?thesis by (subst requestFrom.simps) simp
  next
    case True
    show ?thesis
    proof (cases "outcomes attempt")
      case (Response status retryAfter json)
      with True "1.IH"(1,2) [OF True Response] show ?thesis
        by (subst requestFrom.simps) (auto simp: afterDelay_def)
    next
      case (Throws msg)
      with True "1.IH"(3) [OF True Throws] show ?thesis
        by (subst requestFrom.simps) (auto simp: afterDelay_def)
    qed
  qed
qed

lemma requestFrom_cong:
  "(\<And>i. i < MAX_RETRIES \<Longrightarrow> outcomes' i = outcomes i) \<Longrightarrow>
   requestFrom rnd outcomes' a le = requestFrom rnd outcomes a le"
proof (induction rnd outcomes a le rule: requestFrom.induct)
  case (1 rnd outcomes attempt lastError)
  show ?case
  proof (cases "attempt < MAX_RETRIES")
    case False
    then show ?thesis
      by (subst requestFrom.simps, subst (2) requestFrom.simps) simp
  next
    case True
    then have eq: "outcomes' attempt = outcomes attempt" using "1.prems" by simp
    show ?thesis
    proof (cases "outcomes attempt")
      case (Response status retryAfter json)
      with True eq "1.IH"(1,2) [OF True Response] "1.prems" show ?thesis
        by (subst requestFrom.simps, subst (2) requestFrom.simps) auto
    next
      case (Throws msg)
      with True eq "1.IH"(3) [OF True Throws] "1.prems" show ?thesis
        by (subst requestFrom.simps, subst (2) requestFrom.simps) auto
    qed
  qed
qed

lemma request_first_decisive:
  assumes "k < MAX_RETRIES" and "\<forall>i<k. retryable (outcomes i)"
  shows "request rnd outcomes =
     (fst (requestFrom rnd outcomes k (map_option ThrownError (lastThrown outcomes k))),
      map (backoffAt rnd outcomes) [0..<k]
        @ snd (requestFrom rnd outcomes k (map_option ThrownError (lastThrown outcomes k))))"
  using requestFrom_retries [of 0 k outcomes rnd None] assms
  by (simp add: request_def foldl_lastErrorStep)

text \<open>
  C5 (as amended). Let the outcomes before attempt \<open>k < 5\<close> all be retryable (status 429,
  status 500 or more, or an error thrown whose message does not contain
  \<open>API request failed\<close>): each is followed by its backoff and the next attempt. Then a
  response at attempt \<open>k\<close> whose status is not 2xx, not 429 and below 500 (every 4xx other
  than 429) makes \<open>request\<close> fail at once with the \<open>API request failed\<close> error, after
  exactly \<open>k\<close> backoffs and with no further attempt; a 2xx response returns its body; an
  error thrown whose message contains \<open>API request failed\<close> is rethrown at once. When all
  5 outcomes are retryable, \<open>request\<close> fails after 5 backoffs with the last error thrown
  itself if any was thrown, and with the \<open>Max retries exceeded\<close> error otherwise. The
  result depends on the first \<open>MAX_RETRIES = 5\<close> outcomes only, and at most 5 backoffs are
  slept.
\<close>

theorem request_retry_decision:
  "(k < MAX_RETRIES \<and> (\<forall>i<k. retryable (outcomes i))
      \<and> outcomes k = Response status h json
      \<and> \<not> (200 \<le> status \<and> status < 300) \<and> status \<noteq> 429 \<and> status < 500
      \<longrightarrow> request rnd outcomes
            = (Inl (ApiRequestFailed status), map (backoffAt rnd outcomes) [0..<k]))
   \<and> (k < MAX_RETRIES \<and> (\<forall>i<k. retryable (outcomes i))
      \<and> outcomes k = Response status h json \<and> 200 \<le> status \<and> status < 300
      \<longrightarrow> request rnd outcomes = (Inr json, map (backoffAt rnd outcomes) [0..<k]))
   \<and> (k < MAX_RETRIES \<and> (\<forall>i<k. retryable (outcomes i))
      \<and> outcomes k = Throws msg \<and> strIncludes msg API_REQUEST_FAILED
      \<longrightarrow> request rnd outcomes
            = (Inl (ThrownError msg), map (backoffAt rnd outcomes) [0..<k]))
   \<and> ((\<forall>i<MAX_RETRIES. retryable (outcomes i))
      \<longrightarrow> request rnd outcomes
            = (Inl (case lastThrown outcomes MAX_RETRIES of
                      Some m \<Rightarrow> ThrownError m
                    | None \<Rightarrow> MaxRetriesExceeded),
               map (backoffAt rnd outcomes) [0..<MAX_RETRIES]))
   \<and> ((\<forall>i<MAX_RETRIES. outcomes' i = outcomes i)
      \<longrightarrow> request rnd outcomes' = request rnd outcomes)
   \<and> length (snd (request rnd outcomes)) \<le> MAX_RETRIES
   \<and> MAX_RETRIES = 5"
proof (intro conjI impI)
  assume a: "k < MAX_RETRIES \<and> (\<forall>i<k. retryable (outcomes i))
      \<and> outcomes k = Response status h json
      \<and> \<not> (200 \<le> status \<and> status < 300) \<and> status \<noteq> 429 \<and> status < 500"
  then have "requestFrom rnd outcomes k (map_option ThrownError (lastThrown outcomes k))
      = (Inl (ApiRequestFailed status), [])"
    by (subst requestFrom.simps) auto
  with a request_first_decisive [of k outcomes rnd]
  show "request rnd outcomes
      = (Inl (ApiRequestFailed status), map (backoffAt rnd outcomes) [0..<k])"
    by simp
next
  assume a: "k < MAX_RETRIES \<and> (\<forall>i<k. retryable (outcomes i))
      \<and> outcomes k = Response status h json \<and> 200 \<le> status \<and> status < 300"
  then have "requestFrom rnd outcomes k (map_option ThrownError (lastThrown outcomes k))
      = (Inr json, [])"
    by (subst requestFrom.simps) auto
  with a request_first_decisive [of k outcomes rnd]
  show "request rnd outcomes = (Inr json, map (backoffAt rnd outcomes) [0..<k])"
    by simp
next
  assume a: "k < MAX_RETRIES \<and> (\<forall>i<k. retryable (outcomes i))
      \<and> outcomes k = Throws msg \<and> strIncludes msg API_REQUEST_FAILED"
  then have "requestFrom rnd outcomes k (map_option ThrownError (lastThrown outcomes k))
      = (Inl (ThrownError msg), [])"
    by (subst requestFrom.simps) auto
  with a request_first_decisive [of k outcomes rnd]
  show "request rnd outcomes
      = (Inl (ThrownError msg), map (backoffAt rnd outcomes) [0..<k])"
    by simp
next
  assume a: "\<forall>i<MAX_RETRIES. retryable (outcomes i)"
  have "request rnd outcomes =
     (fst (requestFrom rnd outcomes MAX_RETRIES
             (map_option ThrownError (lastThrown outcomes MAX_RETRIES))),
      map (backoffAt rnd outcomes) [0..<MAX_RETRIES]
        @ snd (requestFrom rnd outcomes MAX_RETRIES
                 (map_option ThrownError (lastThrown outcomes MAX_RETRIES))))"
    using requestFrom_retries [of 0 MAX_RETRIES outcomes rnd None] a
    by (simp add: request_def foldl_lastErrorStep)
  then show "request rnd outcomes
      = (Inl (case lastThrown outcomes MAX_RETRIES of
                Some m \<Rightarrow> ThrownError m
              | None \<Rightarrow> MaxRetriesExceeded),
         map (backoffAt rnd outcomes) [0..<MAX_RETRIES])"
    by (simp add: requestFrom_exhausted split: option.splits)
next
  assume "\<forall>i<MAX_RETRIES. outcomes' i = outcomes i"
  then show "request rnd outcomes' = request rnd outcomes"
    unfolding request_def by (intro requestFrom_cong) simp
next
  show "length (snd (request rnd outcomes)) \<le> MAX_RETRIES"
    using requestFrom_length [of rnd outcomes 0 None] by (simp add: request_def)
  show "MAX_RETRIES = 5" by (simp add: MAX_RETRIES_def)
qed

theorem request_retry_decision_witness:
  "request rnd_mid outcomes_404 = (Inl (ApiRequestFailed 404), [500, 1000])
   \<and> request rnd_mid outcomes_ok_third = (Inr 7, [2000, 2000])
   \<and> request rnd_mid outcomes_down = (Inl (ThrownError ''boom''), [500, 1000, 2000, 4000, 8000])"
proof -
  have k: "2 < MAX_RETRIES" by (simp add: MAX_RETRIES_def)
  have r1: "\<forall>i<2. retryable (outcomes_404 i)"
    by (simp add: less_Suc_eq numeral_2_eq_2 retryable_def outcomes_404_def
        API_REQUEST_FAILED_def)
  have o1: "outcomes_404 2 = Response 404 None ()"
    by (simp add: outcomes_404_def)
  have d1: "map (backoffAt rnd_mid outcomes_404) [0..<2] = [500, 1000]"
    by code_simp
  have r2: "\<forall>i<2. retryable (outcomes_ok_third i)"
    by (simp add: retryable_def outcomes_ok_third_def)
  have o2: "outcomes_ok_third 2 = Response 200 None 7"
    by (simp add: outcomes_ok_third_def)
  have d2: "map (backoffAt rnd_mid outcomes_ok_third) [0..<2] = [2000, 2000]"
    by code_simp
  have r3: "\<forall>i<MAX_RETRIES. retryable (outcomes_down i)"
    by (simp add: retryable_def outcomes_down_def API_REQUEST_FAILED_def)
  have l3: "lastThrown outcomes_down MAX_RETRIES = Some ''boom''"
    by code_simp
  have d3: "map (backoffAt rnd_mid outcomes_down) [0..<MAX_RETRIES] = [500, 1000, 2000, 4000, 8000]"
    by code_simp
  have c1: "request rnd_mid outcomes_404 = (Inl (ApiRequestFailed 404), [500, 1000])"
    using request_retry_decision [where k = 2 and outcomes = outcomes_404 and status = 404
        and h = None and json = "()" and rnd = rnd_mid and msg = "[]"
        and outcomes' = outcomes_404] k r1 o1 d1
    by simp
  have c2: "request rnd_mid outcomes_ok_third = (Inr 7, [2000, 2000])"
    using request_retry_decision [where k = 2 and outcomes = outcomes_ok_third
        and status = 200 and h = None and json = 7 and rnd = rnd_mid and msg = "[]"
        and outcomes' = outcomes_ok_third] k r2 o2 d2
    by simp
  have c3: "request rnd_mid outcomes_down
      = (Inl (ThrownError ''boom''), [500, 1000, 2000, 4000, 8000])"
    using request_retry_decision [where k = 0 and outcomes = outcomes_down and status = 0
        and h = None and json = "()" and rnd = rnd_mid and msg = "[]"
        and outcomes' = outcomes_down] r3 l3 d3
    by simp
  from c1 c2 c3 show ?thesis by simp
qed

text \<open>
  Five attempts that all throw \<open>boom\<close>: the error \<open>request\<close> fails with is that error
  itself, not a \<open>Max retries exceeded\<close> error.
\<close>

theorem request_exhausted_counterexample:
  "map outcomes_down [0, 1, 2, 3, 4] = replicate 5 (Throws ''boom'')
   \<and> fst (request rnd_mid outcomes_down) = Inl (ThrownError ''boom'')
   \<and> fst (request rnd_mid outcomes_down) \<noteq> Inl MaxRetriesExceeded"
  by code_simp

section \<open>Properties of the batches and of the sync\<close>

lemma fulfilled_Nil: "fulfilled [] = []"
  by (simp add: fulfilled_def map_filter_def)

lemma fulfilled_append: "fulfilled (a @ b) = fulfilled a @ fulfilled b"
  by (simp add: fulfilled_def map_filter_def)

lemma fulfilled_concat:
  "fulfilled (map processor items)
     = concat (map (\<lambda>x. case processor x of Inl e \<Rightarrow> [] | Inr v \<Rightarrow> [v]) items)"
  by (induction items) (simp_all add: fulfilled_def map_filter_def split: sum.splits)

lemma fulfilled_all: "fulfilled (map (\<lambda>x. Inr (f x)) items) = map f items"
  by (induction items) (simp_all add: fulfilled_def map_filter_def)

lemma processBatchesFrom_eq:
  "0 < batchSize \<Longrightarrow>
   processBatchesFrom items batchSize processor i results
     = Some (results @ fulfilled (map processor (drop i items)))"
proof (induction "length items - i" arbitrary: i results rule: less_induct)
  case less
  show ?case
  proof (cases "i < length items")
    case False
    then show ?thesis by (subst processBatchesFrom.simps) (simp add: fulfilled_Nil)
  next
    case True
    with less.prems have m: "length items - (i + batchSize) < length items - i" by simp
    have d: "drop (i + batchSize) items = drop batchSize (drop i items)"
      by (simp add: add.commute)
    have "take batchSize (drop i items) @ drop batchSize (drop i items) = drop i items"
      by (rule append_take_drop_id)
    then have "map processor (take batchSize (drop i items))
            @ map processor (drop batchSize (drop i items))
          = map processor (drop i items)"
      by (metis map_append)
    then have "fulfilled (map processor (take batchSize (drop i items)))
            @ fulfilled (map processor (drop (i + batchSize) items))
          = fulfilled (map processor (drop i items))"
      unfolding d by (metis fulfilled_append)
    with True less.hyps [OF m less.prems] show ?thesis
      by (subst processBatchesFrom.simps) simp
  qed
qed

lemma processInBatches_eq:
  "0 < batchSize \<Longrightarrow> processInBatches items batchSize processor = Some (fulfilled (map processor items))"
  by (simp add: processInBatches_def processBatchesFrom_eq)


text \<open>With a batch size of 0 and an item to process the loop never ends.\<close>

lemma processBatchesFrom_zero_aux:
  assumes "processBatchesFrom items batchSize processor i results = Some y"
  shows "batchSize = 0 \<longrightarrow> \<not> i < length items"
proof (rule processBatchesFrom.raw_induct
    [where P = "\<lambda>items bs p i res y. bs = 0 \<longrightarrow> \<not> i < length items", OF _ assms])
  fix f items bs p i res y
  assume ih: "\<And>items bs p i res y. f items bs p i res = Some y \<Longrightarrow> bs = 0 \<longrightarrow> \<not> i < length items"
    and b: "(if i < length items
             then f items bs p (i + bs) (res @ fulfilled (map p (take bs (drop i items))))
             else Some res) = Some y"
  show "bs = 0 \<longrightarrow> \<not> i < length items"
  proof (intro impI notI)
    assume z: "bs = 0" and l: "i < length items"
    with b have "f items bs p (i + bs) (res @ fulfilled (map p (take bs (drop i items)))) = Some y"
      by simp
    from ih [OF this] z l show False by simp
  qed
qed

lemma processBatchesFrom_zero:
  "i < length items \<Longrightarrow> processBatchesFrom items 0 processor i results = None"
  using processBatchesFrom_zero_aux [of items 0 processor i results]
  by (cases "processBatchesFrom items 0 processor i results") auto

lemma processInBatches_zero:
  "items \<noteq> [] \<Longrightarrow> processInBatches items 0 processor = None"
  by (simp add: processInBatches_def processBatchesFrom_zero)
lemma processInBatches_all:
  "0 < batchSize \<Longrightarrow>
   processInBatches items batchSize (\<lambda>x. Inr (f x)) = Some (map f items)"
  by (simp add: processInBatches_eq fulfilled_all)

text \<open>What \<open>syncData\<close> gives in each of the cases it goes through.\<close>

lemma syncData_users_failed:
  "users_response env = Inl e \<Longrightarrow> syncData parseDate env ident hist = Some (Inl e)"
  by (simp add: syncData_def findUser_def)

lemma syncData_no_user:
  "findUser env ident = Inr None \<Longrightarrow>
   syncData parseDate env ident hist = Some (Inl (UserNotFound ident))"
  by (simp add: syncData_def)

lemma syncData_schedules_failed:
  "findUser env ident = Inr (Some u) \<Longrightarrow> schedules_response env = Inl e \<Longrightarrow>
   syncData parseDate env ident hist = Some (Inl e)"
  by (simp add: syncData_def getOnCallSchedules_def)

lemma syncData_candidates:
  "findUser env ident = Inr (Some u) \<Longrightarrow> schedules_response env = Inr schedules \<Longrightarrow>
   syncData parseDate env ident hist =
     (case candidateIncidents env (user_id u) hist of
        None \<Rightarrow> None
      | Some (Inl e) \<Rightarrow> Some (Inl e)
      | Some (Inr incs) \<Rightarrow>
          Some (Inr \<lparr>onCall =
                       (if List.map_filter (scheduleCheck env (user_email u)) schedules \<noteq> []
                        then Some (List.map_filter (scheduleCheck env (user_email u)) schedules)
                        else None),
                     incidents = map incidentResult incs,
                     fullIncidents =
                       map (\<lambda>inc. getFullIncidentDetails parseDate env inc (user_id u)) incs\<rparr>))"
  by (simp add: syncData_def getOnCallSchedules_def processInBatches_all BATCH_SIZE_def
      split: option.splits sum.splits)

lemma findUser_none_iff:
  "findUser env ident = Inr None
     \<longleftrightarrow> (\<exists>users. users_response env = Inr users \<and> \<not> list_ex (userMatches ident) users)"
  by (auto simp: findUser_def find_None_iff list_ex_iff split: sum.splits)

lemma findUser_cases:
  "(\<exists>e. users_response env = Inl e) \<or> findUser env ident = Inr None
   \<or> (\<exists>u. findUser env ident = Inr (Some u))"
  by (cases "users_response env"; cases "findUser env ident") (auto simp: findUser_def)

text \<open>
  C10. With a positive batch size \<open>processInBatches\<close> returns exactly the results of the
  items whose processing succeeded, in the order of the input list: a failed item is left
  out and costs no other item its place. When \<open>syncData\<close> returns, its \<open>fullIncidents\<close>
  are what \<open>processInBatches\<close> with batch size 5 gives on the candidate incidents, and
  as fetching the details never fails these are the details of all the candidates in
  candidate order.
\<close>

theorem batches_keep_successes_in_order:
  "(0 < batchSize \<longrightarrow>
      processInBatches items batchSize processor
        = Some (concat (map (\<lambda>x. case processor x of Inl e \<Rightarrow> [] | Inr v \<Rightarrow> [v]) items)))
   \<and> (syncData parseDate env ident hist = Some (Inr res) \<longrightarrow>
        (\<exists>u incs. findUser env ident = Inr (Some u)
           \<and> candidateIncidents env (user_id u) hist = Some (Inr incs)
           \<and> processInBatches incs BATCH_SIZE
                (\<lambda>inc. Inr (getFullIncidentDetails parseDate env inc (user_id u)))
               = Some (fullIncidents res)
           \<and> fullIncidents res
               = map (\<lambda>inc. getFullIncidentDetails parseDate env inc (user_id u)) incs))"
proof (intro conjI impI)
  assume "0 < batchSize"
  then show "processInBatches items batchSize processor
        = Some (concat (map (\<lambda>x. case processor x of Inl e \<Rightarrow> [] | Inr v \<Rightarrow> [v]) items))"
    by (simp add: processInBatches_eq fulfilled_concat)
next
  assume a: "syncData parseDate env ident hist = Some (Inr res)"
  from findUser_cases [of env ident] show "\<exists>u incs. findUser env ident = Inr (Some u)
           \<and> candidateIncidents env (user_id u) hist = Some (Inr incs)
           \<and> processInBatches incs BATCH_SIZE
                (\<lambda>inc. Inr (getFullIncidentDetails parseDate env inc (user_id u)))
               = Some (fullIncidents res)
           \<and> fullIncidents res
               = map (\<lambda>inc. getFullIncidentDetails parseDate env inc (user_id u)) incs"
  proof (elim disjE exE)
    fix e assume "users_response env = Inl e"
    with a show ?thesis by (simp add: syncData_users_failed)
  next
    assume "findUser env ident = Inr None"
    with a show ?thesis by (simp add: syncData_no_user)
  next
    fix u assume u: "findUser env ident = Inr (Some u)"
    show ?thesis
    proof (cases "schedules_response env")
      case (Inl e)
      with a u show ?thesis by (simp add: syncData_schedules_failed)
    next
      case (Inr schedules)
      from a syncData_candidates [OF u Inr, of parseDate hist]
      obtain incs where c: "candidateIncidents env (user_id u) hist = Some (Inr incs)"
        and f: "fullIncidents res
          = map (\<lambda>inc. getFullIncidentDetails parseDate env inc (user_id u)) incs"
        by (auto split: option.splits sum.splits)
      from f have "processInBatches incs BATCH_SIZE
                (\<lambda>inc. Inr (getFullIncidentDetails parseDate env inc (user_id u)))
               = Some (fullIncidents res)"
        by (simp add: processInBatches_all BATCH_SIZE_def)
      with u c f show ?thesis by blast
    qed
  qed
qed

theorem batches_keep_successes_in_order_witness:
  "processInBatches [1, 2, 3, 4, 5, 6, 7] 3 odd_times_ten = Some [10, 30, 50, 70]
   \<and> (\<exists>res. syncData example_parseDate api_example ''ALICE'' None = Some (Inr res)
          \<and> map fi_reference (fullIncidents res) = [''INC-1'', ''INC-3''])"
proof -
  have p: "(0::nat) < 3" by simp
  have c: "concat (map (\<lambda>x. case odd_times_ten x of Inl e \<Rightarrow> [] | Inr v \<Rightarrow> [v]) [1, 2, 3, 4, 5, 6, 7])
      = [10, 30, 50, 70]"
    by code_simp
  have 1: "processInBatches [1, 2, 3, 4, 5, 6, 7] 3 odd_times_ten = Some [10, 30, 50, 70]"
    using batches_keep_successes_in_order [of 3 "[1, 2, 3, 4, 5, 6, 7]" odd_times_ten] p c
    by simp
  obtain res where s: "syncData example_parseDate api_example ''ALICE'' None = Some (Inr res)"
    and r: "map fi_reference (fullIncidents res) = [''INC-1'', ''INC-3'']"
  proof -
    have "map_option (map_sum (\<lambda>e. e) (\<lambda>r. map fi_reference (fullIncidents r)))
            (syncData example_parseDate api_example ''ALICE'' None)
          = Some (Inr [''INC-1'', ''INC-3''])"
      by code_simp
    then show ?thesis
      by (cases "syncData example_parseDate api_example ''ALICE'' None")
        (auto simp: map_sum_def split: sum.splits intro: that)
  qed
  from batches_keep_successes_in_order [of 1 "[]" odd_times_ten example_parseDate api_example
      "''ALICE''" None res] s
  have "\<exists>u incs. findUser api_example ''ALICE'' = Inr (Some u)
      \<and> candidateIncidents api_example (user_id u) None = Some (Inr incs)
      \<and> processInBatches incs BATCH_SIZE
           (\<lambda>inc. Inr (getFullIncidentDetails example_parseDate api_example inc (user_id u)))
          = Some (fullIncidents res)
      \<and> fullIncidents res
          = map (\<lambda>inc. getFullIncidentDetails example_parseDate api_example inc (user_id u)) incs"
    by simp
  from this 1 s r show ?thesis
    by (intro conjI exI [of _ res]) simp_all
qed

lemma candidateIncidents_active:
  "candidateIncidents env userId None =
     (case incidents_response env of
        Inl e \<Rightarrow> Some (Inl e)
      | Inr incs \<Rightarrow>
          Some (Inr (filter (\<lambda>inc. list_ex (\<lambda>r. user_id (assignee r) = userId \<and> role_type (role r) = Lead)
                                      (incident_role_assignments inc))
                       (filter (\<lambda>inc. status_category (incident_status inc) = Live
                                       \<or> status_category (incident_status inc) = Triage) incs))))"
  by (simp add: candidateIncidents_def getUserIncidents_def getActiveIncidents_def
      split: sum.splits)

lemma syncData_throws_iff:
  "(\<exists>e. syncData parseDate env ident hist = Some (Inl e))
     \<longleftrightarrow> (\<exists>e. users_response env = Inl e)
         \<or> findUser env ident = Inr None
         \<or> (\<exists>u. findUser env ident = Inr (Some u)
               \<and> ((\<exists>e. schedules_response env = Inl e)
                   \<or> (\<exists>e. candidateIncidents env (user_id u) hist = Some (Inl e))))"
proof -
  from findUser_cases [of env ident] show ?thesis
  proof (elim disjE exE)
    fix e assume u: "users_response env = Inl e"
    then show ?thesis by (auto simp: syncData_users_failed)
  next
    assume n: "findUser env ident = Inr None"
    then show ?thesis by (auto simp: syncData_no_user)
  next
    fix u assume u: "findUser env ident = Inr (Some u)"
    then have nu: "\<not> (\<exists>e. users_response env = Inl e)"
      by (auto simp: findUser_def)
    show ?thesis
    proof (cases "schedules_response env")
      case (Inl e)
      with u show ?thesis by (auto simp: syncData_schedules_failed)
    next
      case (Inr schedules)
      show ?thesis
        unfolding syncData_candidates [OF u Inr]
        using u nu Inr by (auto split: option.splits sum.splits)
    qed
  qed
qed

text \<open>
  C4 (as amended). \<open>syncData\<close> throws if and only if the request for the users fails, no
  user matches the identifier, the request for the list of schedules fails, or the fetch
  of the candidate incidents fails (without historical options: the request for the
  incidents). When a user matches and the schedules and the candidate incidents are
  fetched, the sync returns a result whatever the per-schedule and per-incident requests
  give: a schedule whose entries cannot be fetched counts as not on call, and a
  sub-resource that cannot be fetched is an empty list.
\<close>

theorem syncData_fails_only_on_core_fetches:
  "((\<exists>e. syncData parseDate env ident hist = Some (Inl e))
     \<longleftrightarrow> (\<exists>e. users_response env = Inl e)
         \<or> (\<exists>users. users_response env = Inr users \<and> \<not> list_ex (userMatches ident) users)
         \<or> (\<exists>u. findUser env ident = Inr (Some u)
               \<and> ((\<exists>e. schedules_response env = Inl e)
                   \<or> (\<exists>e. candidateIncidents env (user_id u) hist = Some (Inl e)))))
   \<and> ((\<exists>e. candidateIncidents env userId None = Some (Inl e))
        \<longleftrightarrow> (\<exists>e. incidents_response env = Inl e))
   \<and> (findUser env ident = Inr (Some u) \<and> schedules_response env = Inr schedules
        \<and> candidateIncidents env (user_id u) hist = Some (Inr incs)
        \<longrightarrow> syncData parseDate env ident hist =
              Some (Inr \<lparr>onCall =
                           (if List.map_filter (scheduleCheck env (user_email u)) schedules \<noteq> []
                            then Some (List.map_filter (scheduleCheck env (user_email u)) schedules)
                            else None),
                         incidents = map incidentResult incs,
                         fullIncidents =
                           map (\<lambda>inc. getFullIncidentDetails parseDate env inc (user_id u)) incs\<rparr>))
   \<and> (schedule_entries_response env (schedule_id s) = Inl e'
        \<longrightarrow> scheduleCheck env email s = None)
   \<and> (incident_updates_response env iid = Inl e' \<longrightarrow> getIncidentUpdates env iid = [])
   \<and> (follow_ups_response env iid = Inl e' \<longrightarrow> getIncidentFollowUps env iid = [])
   \<and> (actions_response env iid = Inl e' \<longrightarrow> getIncidentActions env iid = [])
   \<and> (incident_attachments_response env iid = Inl e' \<longrightarrow> getIncidentAttachments env iid = [])
   \<and> (incident_timestamp_values_response env iid = Inl e'
        \<longrightarrow> getIncidentTimestamps parseDate env iid = [])"
proof (intro conjI impI)
  show "(\<exists>e. syncData parseDate env ident hist = Some (Inl e))
     \<longleftrightarrow> (\<exists>e. users_response env = Inl e)
         \<or> (\<exists>users. users_response env = Inr users \<and> \<not> list_ex (userMatches ident) users)
         \<or> (\<exists>u. findUser env ident = Inr (Some u)
               \<and> ((\<exists>e. schedules_response env = Inl e)
                   \<or> (\<exists>e. candidateIncidents env (user_id u) hist = Some (Inl e))))"
    unfolding syncData_throws_iff findUser_none_iff ..
  show "(\<exists>e. candidateIncidents env userId None = Some (Inl e))
        \<longleftrightarrow> (\<exists>e. incidents_response env = Inl e)"
    by (auto simp: candidateIncidents_active split: sum.splits)
next
  assume "findUser env ident = Inr (Some u) \<and> schedules_response env = Inr schedules
        \<and> candidateIncidents env (user_id u) hist = Some (Inr incs)"
  then show "syncData parseDate env ident hist =
              Some (Inr \<lparr>onCall =
                           (if List.map_filter (scheduleCheck env (user_email u)) schedules \<noteq> []
                            then Some (List.map_filter (scheduleCheck env (user_email u)) schedules)
                            else None),
                         incidents = map incidentResult incs,
                         fullIncidents =
                           map (\<lambda>inc. getFullIncidentDetails parseDate env inc (user_id u)) incs\<rparr>)"
    by (simp add: syncData_candidates)
next
  assume "schedule_entries_response env (schedule_id s) = Inl e'"
  then show "scheduleCheck env email s = None" by (simp add: scheduleCheck_def)
next
  assume "incident_updates_response env iid = Inl e'"
  then show "getIncidentUpdates env iid = []" by (simp add: getIncidentUpdates_def)
next
  assume "follow_ups_response env iid = Inl e'"
  then show "getIncidentFollowUps env iid = []" by (simp add: getIncidentFollowUps_def)
next
  assume "actions_response env iid = Inl e'"
  then show "getIncidentActions env iid = []" by (simp add: getIncidentActions_def)
next
  assume "incident_attachments_response env iid = Inl e'"
  then show "getIncidentAttachments env iid = []" by (simp add: getIncidentAttachments_def)
next
  assume "incident_timestamp_values_response env iid = Inl e'"
  then show "getIncidentTimestamps parseDate env iid = []"
    by (simp add: getIncidentTimestamps_def)
qed

theorem syncData_fails_only_on_core_fetches_witness:
  "schedule_entries_response api_example ''P'' = Inl (ApiRequestFailed 500)
   \<and> incident_updates_response api_example ''I1'' = Inl (ApiRequestFailed 404)
   \<and> (\<exists>res. syncData example_parseDate api_example ''ALICE'' None = Some (Inr res)
          \<and> onCall res = Some [''Secondary'']
          \<and> map ir_reference (incidents res) = [''INC-1'', ''INC-3''])"
proof -
  let ?schedules = "[\<lparr>schedule_id = ''P'', schedule_name = ''Primary''\<rparr>,
                     \<lparr>schedule_id = ''S'', schedule_name = ''Secondary''\<rparr>]"
  let ?incs = "[raw_incident ''1'' Live ''2024-01-14T10:00:00Z'' None,
                raw_incident ''3'' Triage ''2024-01-15T10:00:00Z'' None]"
  have u: "findUser api_example ''ALICE'' = Inr (Some alice)"
    by code_simp
  have s: "schedules_response api_example = Inr ?schedules"
    by (simp add: api_example_def)
  have c: "candidateIncidents api_example (user_id alice) None = Some (Inr ?incs)"
    by code_simp
  have o: "List.map_filter (scheduleCheck api_example (user_email alice)) ?schedules
      = [''Secondary'']"
    by code_simp
  have r: "map incidentResult ?incs =
      [\<lparr>ir_reference = ''INC-1'', ir_name = ''Database down'', ir_status = ''Current''\<rparr>,
       \<lparr>ir_reference = ''INC-3'', ir_name = ''Database down'', ir_status = ''Current''\<rparr>]"
    by code_simp
  have e1: "schedule_entries_response api_example ''P'' = Inl (ApiRequestFailed 500)"
    by (simp add: api_example_def)
  have e2: "incident_updates_response api_example ''I1'' = Inl (ApiRequestFailed 404)"
    by (simp add: api_example_def)
  from syncData_fails_only_on_core_fetches [where env = api_example and ident = "''ALICE''"
      and u = alice and schedules = ?schedules and hist = None and incs = ?incs
      and parseDate = example_parseDate] u s c
  have "syncData example_parseDate api_example ''ALICE'' None =
      Some (Inr \<lparr>onCall =
                   (if List.map_filter (scheduleCheck api_example (user_email alice)) ?schedules \<noteq> []
                    then Some (List.map_filter (scheduleCheck api_example (user_email alice)) ?schedules)
                    else None),
                 incidents = map incidentResult ?incs,
                 fullIncidents =
                   map (\<lambda>inc. getFullIncidentDetails example_parseDate api_example inc (user_id alice))
                     ?incs\<rparr>)"
    by blast
  then show ?thesis unfolding o r using e1 e2 by simp
qed

text \<open>
  A user matches, but the list of schedules is refused with status 403: the sync fails
  with that error.
\<close>

theorem syncData_schedules_counterexample:
  "findUser api_schedules_forbidden ''ALICE'' = Inr (Some alice)
   \<and> userMatches ''ALICE'' alice
   \<and> syncData example_parseDate api_schedules_forbidden ''ALICE'' None
       = Some (Inl (ApiRequestFailed 403))"
  by code_simp

lemma closedUpdate_some_iff:
  "closedUpdate updates \<noteq> None
     \<longleftrightarrow> list_ex (\<lambda>u. map_option new_status_category (new_incident_status u) = Some ''closed'')
           updates"
  by (auto simp: closedUpdate_def find_None_iff list_ex_iff)

lemma getFullIncidentDetails_closed_at_known:
  assumes "truthy (closed_at incident)"
  shows "fi_closed_at (getFullIncidentDetails parseDate env incident userId) = closed_at incident"
    and "fi_durationMinutes (getFullIncidentDetails parseDate env incident userId)
          = (case closed_at incident of
               None \<Rightarrow> None
             | Some c \<Rightarrow> if created_at incident \<noteq> []
                         then Some (minutesBetween parseDate (created_at incident) c) else None)"
  using assms
  by (simp_all add: getFullIncidentDetails_def buildBasicFullIncident_def Let_def truthy_def
      split: option.splits)

lemma getFullIncidentDetails_back_filled:
  assumes "\<not> truthy (closed_at incident)"
    and "status_category (incident_status incident) = Closed"
    and "closedUpdate (getIncidentUpdates env (id incident)) = Some cu"
  shows "fi_closed_at (getFullIncidentDetails parseDate env incident userId)
          = Some (update_created_at cu)"
    and "fi_durationMinutes (getFullIncidentDetails parseDate env incident userId)
          = Some (minutesBetween parseDate (created_at incident) (update_created_at cu))"
  using assms
  by (simp_all add: getFullIncidentDetails_def buildBasicFullIncident_def Let_def)

lemma getFullIncidentDetails_open:
  assumes "\<not> truthy (closed_at incident)"
    and "status_category (incident_status incident) \<noteq> Closed
         \<or> closedUpdate (getIncidentUpdates env (id incident)) = None"
  shows "fi_durationMinutes (getFullIncidentDetails parseDate env incident userId) = None"
  using assms
  by (auto simp: getFullIncidentDetails_def buildBasicFullIncident_def Let_def truthy_def
      split: option.splits)

text \<open>
  C9 (as amended). For the full incident that \<open>getFullIncidentDetails\<close> produces,
  \<open>durationMinutes\<close> is defined if and only if either \<open>closed_at\<close> and \<open>created_at\<close> are
  both present (non-empty) on the raw incident, or \<open>closed_at\<close> is absent, the status
  category of the incident is \<open>closed\<close> and some fetched update has the new-status
  category \<open>closed\<close>. In the first case the close time is the raw one and the duration is
  computed from it; in the second the timestamp of the first such update is adopted as
  \<open>closed_at\<close> and the duration is computed from it.
\<close>

theorem duration_close_invariant:
  "(fi_durationMinutes (getFullIncidentDetails parseDate env incident userId) \<noteq> None
      \<longleftrightarrow> (truthy (closed_at incident) \<and> created_at incident \<noteq> [])
          \<or> (\<not> truthy (closed_at incident)
              \<and> status_category (incident_status incident) = Closed
              \<and> list_ex (\<lambda>u. map_option new_status_category (new_incident_status u) = Some ''closed'')
                    (getIncidentUpdates env (id incident))))
   \<and> (truthy (closed_at incident) \<and> closed_at incident = Some c \<and> created_at incident \<noteq> []
        \<longrightarrow> fi_closed_at (getFullIncidentDetails parseDate env incident userId) = Some c
            \<and> fi_durationMinutes (getFullIncidentDetails parseDate env incident userId)
                = Some (minutesBetween parseDate (created_at incident) c))
   \<and> (\<not> truthy (closed_at incident) \<and> status_category (incident_status incident) = Closed
        \<and> closedUpdate (getIncidentUpdates env (id incident)) = Some cu
        \<longrightarrow> fi_closed_at (getFullIncidentDetails parseDate env incident userId)
              = Some (update_created_at cu)
            \<and> fi_durationMinutes (getFullIncidentDetails parseDate env incident userId)
                = Some (minutesBetween parseDate (created_at incident) (update_created_at cu)))"
proof (intro conjI impI)
  show "fi_durationMinutes (getFullIncidentDetails parseDate env incident userId) \<noteq> None
      \<longleftrightarrow> (truthy (closed_at incident) \<and> created_at incident \<noteq> [])
          \<or> (\<not> truthy (closed_at incident)
              \<and> status_category (incident_status incident) = Closed
              \<and> list_ex (\<lambda>u. map_option new_status_category (new_incident_status u) = Some ''closed'')
                    (getIncidentUpdates env (id incident)))"
  proof (cases "truthy (closed_at incident)")
    case True
    then show ?thesis
      by (auto simp: getFullIncidentDetails_closed_at_known(2) truthy_def split: option.splits)
  next
    case False
    show ?thesis
    proof (cases "status_category (incident_status incident) = Closed
        \<and> closedUpdate (getIncidentUpdates env (id incident)) \<noteq> None")
      case True
      then obtain cu where "closedUpdate (getIncidentUpdates env (id incident)) = Some cu"
        by auto
      with False True show ?thesis
        using closedUpdate_some_iff [of "getIncidentUpdates env (id incident)"]
        by (simp add: getFullIncidentDetails_back_filled(2))
    next
      case nb: False
      then have "status_category (incident_status incident) \<noteq> Closed
         \<or> closedUpdate (getIncidentUpdates env (id incident)) = None" by simp
      from getFullIncidentDetails_open [OF False this] False nb show ?thesis
        using closedUpdate_some_iff [of "getIncidentUpdates env (id incident)"]
        by auto
    qed
  qed
next
  assume a: "truthy (closed_at incident) \<and> closed_at incident = Some c \<and> created_at incident \<noteq> []"
  then have t: "truthy (closed_at incident)" by blast
  from a getFullIncidentDetails_closed_at_known(1) [OF t, of parseDate env userId]
  show "fi_closed_at (getFullIncidentDetails parseDate env incident userId) = Some c"
    by simp
  from a getFullIncidentDetails_closed_at_known(2) [OF t, of parseDate env userId]
  show "fi_durationMinutes (getFullIncidentDetails parseDate env incident userId)
                = Some (minutesBetween parseDate (created_at incident) c)"
    by simp
next
  assume a: "\<not> truthy (closed_at incident) \<and> status_category (incident_status incident) = Closed
        \<and> closedUpdate (getIncidentUpdates env (id incident)) = Some cu"
  then have a1: "\<not> truthy (closed_at incident)"
    and a2: "status_category (incident_status incident) = Closed"
    and a3: "closedUpdate (getIncidentUpdates env (id incident)) = Some cu"
    by blast+
  show "fi_closed_at (getFullIncidentDetails parseDate env incident userId)
              = Some (update_created_at cu)"
    by (rule getFullIncidentDetails_back_filled(1) [OF a1 a2 a3])
  show "fi_durationMinutes (getFullIncidentDetails parseDate env incident userId)
                = Some (minutesBetween parseDate (created_at incident) (update_created_at cu))"
    by (rule getFullIncidentDetails_back_filled(2) [OF a1 a2 a3])
qed

theorem duration_close_invariant_witness:
  "fi_closed_at (getFullIncidentDetails example_parseDate api_with_timeline
       (raw_incident ''2'' Closed ''2024-01-10T10:00:00Z'' None) ''U1'')
     = Some ''2024-01-16T10:00:00Z''
   \<and> fi_durationMinutes (getFullIncidentDetails example_parseDate api_with_timeline
       (raw_incident ''2'' Closed ''2024-01-10T10:00:00Z'' None) ''U1'')
     = Some (Some 8640)
   \<and> fi_durationMinutes (getFullIncidentDetails example_parseDate api_example
       (raw_incident ''5'' Closed ''2024-01-15T10:00:00Z'' (Some ''2024-01-16T10:00:00Z'')) ''U1'')
     = Some (Some 1440)"
proof -
  let ?inc = "raw_incident ''2'' Closed ''2024-01-10T10:00:00Z'' None"
  let ?inc5 = "raw_incident ''5'' Closed ''2024-01-15T10:00:00Z'' (Some ''2024-01-16T10:00:00Z'')"
  have h1: "\<not> truthy (closed_at ?inc)" by code_simp
  have h2: "status_category (incident_status ?inc) = Closed" by code_simp
  have h3: "closedUpdate (getIncidentUpdates api_with_timeline (id ?inc))
      = Some (closing_update ''2024-01-16T10:00:00Z'')"
    by code_simp
  have m: "minutesBetween example_parseDate (created_at ?inc) ''2024-01-16T10:00:00Z''
      = Some 8640"
    by code_simp
  have t: "update_created_at (closing_update ''2024-01-16T10:00:00Z'') = ''2024-01-16T10:00:00Z''"
    by (simp add: closing_update_def)
  have g1: "truthy (closed_at ?inc5)" by code_simp
  have g2: "closed_at ?inc5 = Some ''2024-01-16T10:00:00Z''" by (simp add: raw_incident_def)
  have g3: "created_at ?inc5 \<noteq> []" by (simp add: raw_incident_def)
  have m5: "minutesBetween example_parseDate (created_at ?inc5) ''2024-01-16T10:00:00Z'' = Some 1440"
    by code_simp
  from duration_close_invariant [where parseDate = example_parseDate and env = api_with_timeline
      and incident = ?inc and userId = "''U1''" and cu = "closing_update ''2024-01-16T10:00:00Z''"
      and c = "[]"] h1 h2 h3
  have a: "fi_closed_at (getFullIncidentDetails example_parseDate api_with_timeline ?inc ''U1'')
        = Some (update_created_at (closing_update ''2024-01-16T10:00:00Z''))
      \<and> fi_durationMinutes (getFullIncidentDetails example_parseDate api_with_timeline ?inc ''U1'')
        = Some (minutesBetween example_parseDate (created_at ?inc)
            (update_created_at (closing_update ''2024-01-16T10:00:00Z'')))"
    by blast
  from duration_close_invariant [where parseDate = example_parseDate and env = api_example
      and incident = ?inc5 and userId = "''U1''" and c = "''2024-01-16T10:00:00Z''"
      and cu = "closing_update []"] g1 g2 g3
  have b: "fi_durationMinutes (getFullIncidentDetails example_parseDate api_example ?inc5 ''U1'')
        = Some (minutesBetween example_parseDate (created_at ?inc5) ''2024-01-16T10:00:00Z'')"
    by blast
  from a have a': "fi_closed_at (getFullIncidentDetails example_parseDate api_with_timeline ?inc ''U1'')
        = Some ''2024-01-16T10:00:00Z''
      \<and> fi_durationMinutes (getFullIncidentDetails example_parseDate api_with_timeline ?inc ''U1'')
        = Some (minutesBetween example_parseDate (created_at ?inc) ''2024-01-16T10:00:00Z'')"
    by (simp only: t)
  from a' b show ?thesis by (simp only: m m5)
qed

text \<open>
  A raw incident with a close time and an empty \<open>created_at\<close>: the close time is known and
  kept, yet no duration is computed.
\<close>

theorem duration_close_counterexample:
  "truthy (closed_at (raw_incident ''4'' Closed [] (Some ''2024-01-16T10:00:00Z'')))
   \<and> fi_closed_at (getFullIncidentDetails example_parseDate api_with_timeline
        (raw_incident ''4'' Closed [] (Some ''2024-01-16T10:00:00Z'')) ''U1'')
       = Some ''2024-01-16T10:00:00Z''
   \<and> fi_durationMinutes (getFullIncidentDetails example_parseDate api_with_timeline
        (raw_incident ''4'' Closed [] (Some ''2024-01-16T10:00:00Z'')) ''U1'')
       = None"
  by code_simp


end
